theory Spec2Isabelle
  imports Complex_Main
begin

section \<open>C++ integer arithmetic\<close>

text \<open>
  The program computes on 32-bit \<open>int\<close>. A value of that type is an integer between
  \<open>INT_MIN\<close> and \<open>INT_MAX\<close>, and the result of every addition and subtraction is
  brought back into that range by \<open>int32\<close>: C++ leaves signed overflow undefined, and
  the model writes out the two's complement wrap-around that the compiled code performs.
  Where the operands keep the result inside the range \<open>int32\<close> changes nothing.
\<close>

definition INT_MIN :: int where
  "INT_MIN = - 2147483648"

definition INT_MAX :: int where
  "INT_MAX = 2147483647"

definition int32 :: "int \<Rightarrow> int" where
  "int32 x = (x + 2147483648) mod 4294967296 - 2147483648"

text \<open>
  Division and remainder are the ones of C++: the quotient is truncated towards zero
  and the remainder takes the sign of the dividend. The divisors of the program are
  positive constants, with one exception: the division by the length of the workday,
  which is guarded in the model of \<open>getWorkdayIncrement\<close>.
\<close>

definition c_div :: "int \<Rightarrow> int \<Rightarrow> int" where
  "c_div a b = (if (a < 0) = (b < 0) then \<bar>a\<bar> div \<bar>b\<bar> else - (\<bar>a\<bar> div \<bar>b\<bar>))"

definition c_mod :: "int \<Rightarrow> int \<Rightarrow> int" where
  "c_mod a b = a - b * c_div a b"

text \<open>
  What can go wrong without a C++ exception being thrown: a read outside an array, an
  integer division by zero, the division of the least \<open>long\<close> by \<open>-1\<close>, and the
  conversion to \<open>long\<close> of a \<open>float\<close> that no \<open>long\<close> represents.
\<close>

datatype fault = OutOfBounds | DivByZero | DivOverflow | CastOutOfRange

section \<open>Date.h, Date.cpp\<close>

record Date =
  year :: int
  month :: int
  day :: int
  hour :: int
  minute :: int

definition mkDate :: "int \<Rightarrow> int \<Rightarrow> int \<Rightarrow> int \<Rightarrow> int \<Rightarrow> Date" where
  "mkDate y m d h mi = \<lparr>year = y, month = m, day = d, hour = h, minute = mi\<rparr>"

definition setDate :: "Date \<Rightarrow> int \<Rightarrow> int \<Rightarrow> int \<Rightarrow> int \<Rightarrow> int \<Rightarrow> Date" where
  "setDate dt y m d h mi = dt\<lparr>year := y, month := m, day := d, hour := h, minute := mi\<rparr>"

definition getTime :: "Date \<Rightarrow> int \<times> int" where
  "getTime dt = (hour dt, minute dt)"

definition generateInvalidDate :: Date where
  "generateInvalidDate = mkDate (-1) (-1) (-1) (-1) (-1)"

text \<open>
  Stream output of an \<open>int\<close> under \<open>setw(w)\<close> and \<open>setfill('0')\<close>: the decimal
  digits, a leading minus sign for a negative number, and fill characters on the left up
  to the width.
\<close>

definition digit_char :: "nat \<Rightarrow> char" where
  "digit_char n = char_of (48 + n)"

fun nat_digits :: "nat \<Rightarrow> string" where
  "nat_digits n = (if n < 10 then [digit_char n] else nat_digits (n div 10) @ [digit_char (n mod 10)])"

declare nat_digits.simps [simp del]

definition int_text :: "int \<Rightarrow> string" where
  "int_text i = (if i < 0 then CHR ''-'' # nat_digits (nat (- i)) else nat_digits (nat i))"

definition setw_fill0 :: "nat \<Rightarrow> int \<Rightarrow> string" where
  "setw_fill0 w i = replicate (w - length (int_text i)) (CHR ''0'') @ int_text i"

definition getDate :: "Date \<Rightarrow> string" where
  "getDate dt = setw_fill0 4 (year dt) @ ''-'' @ setw_fill0 2 (month dt) @ ''-''
                @ setw_fill0 2 (day dt) @ '' ''"

definition getDateAndTime :: "Date \<Rightarrow> string" where
  "getDateAndTime dt = setw_fill0 4 (year dt) @ ''-'' @ setw_fill0 2 (month dt) @ ''-''
                @ setw_fill0 2 (day dt) @ '' '' @ setw_fill0 2 (hour dt) @ '':''
                @ setw_fill0 2 (minute dt)"

text \<open>The month offsets of \<open>dayOfWeek\<close>, a C array of twelve entries.\<close>

definition t_table :: "int list" where
  "t_table = [0, 3, 2, 5, 0, 3, 5, 1, 4, 6, 2, 4]"

text \<open>
  Reading a C array: an index outside the array has no defined result, which the model
  reports as a fault instead of returning some value. The index \<open>month - 1\<close> of
  \<open>dayOfWeek\<close> is passed as it is: it leaves the range of \<open>int\<close> only for the month
  \<open>INT_MIN\<close>, where the wrapped index \<open>INT_MAX\<close> is outside the table as well.
\<close>

definition array_read :: "int list \<Rightarrow> int \<Rightarrow> fault + int" where
  "array_read xs i = (if 0 \<le> i \<and> i < int (length xs) then Inr (xs ! nat i) else Inl OutOfBounds)"

definition dayOfWeek :: "Date \<Rightarrow> fault + int" where
  "dayOfWeek dt =
     (let y = int32 (year dt - (if month dt < 3 then 1 else 0))
      in case array_read t_table (month dt - 1) of
           Inl e \<Rightarrow> Inl e
         | Inr off \<Rightarrow>
             Inr (c_mod (int32 (y + c_div y 4 - c_div y 100 + c_div y 400 + off + day dt)) 7))"

section \<open>TimeUtils\<close>

definition MINUTES_IN_HOUR :: int where
  "MINUTES_IN_HOUR = 60"

definition MINUTES_IN_DAY :: int where
  "MINUTES_IN_DAY = MINUTES_IN_HOUR * 24"

definition convertToMinutes :: "int \<times> int \<Rightarrow> int" where
  "convertToMinutes time_i = int32 (fst time_i * MINUTES_IN_HOUR + snd time_i)"

definition subtractMinutes :: "int \<Rightarrow> int \<Rightarrow> int \<times> int" where
  "subtractMinutes larger smaller =
     (let diff = int32 (larger - smaller);
          diff = (if diff < 0 then diff + MINUTES_IN_DAY else diff)
      in (c_div diff MINUTES_IN_HOUR, c_mod diff MINUTES_IN_HOUR))"

definition addMinutes :: "int \<Rightarrow> int \<Rightarrow> int \<times> int" where
  "addMinutes left right =
     (let total = int32 (left + right)
      in (c_div total MINUTES_IN_HOUR, c_mod total MINUTES_IN_HOUR))"

definition subtractTime :: "int \<times> int \<Rightarrow> int \<times> int \<Rightarrow> int \<times> int" where
  "subtractTime larger smaller =
     (let diff = int32 (convertToMinutes larger - convertToMinutes smaller);
          diff = (if diff < 0 then diff + MINUTES_IN_DAY else diff)
      in (c_div diff MINUTES_IN_HOUR, c_mod diff MINUTES_IN_HOUR))"

definition addTime :: "int \<times> int \<Rightarrow> int \<times> int \<Rightarrow> int \<times> int" where
  "addTime left right =
     (let total = int32 (convertToMinutes left + convertToMinutes right)
      in (c_div total MINUTES_IN_HOUR, c_mod total MINUTES_IN_HOUR))"

section \<open>GregorianCalendar\<close>

record GregorianCalendar =
  holidays :: "string set"
  recurring_holidays :: "(int \<times> int) set"

definition newGregorianCalendar :: GregorianCalendar where
  "newGregorianCalendar = \<lparr>holidays = {}, recurring_holidays = {}\<rparr>"

definition isLeapYear :: "int \<Rightarrow> bool" where
  "isLeapYear y =
     (if c_mod y 4 \<noteq> 0 then False
      else if c_mod y 100 \<noteq> 0 then True
      else if c_mod y 400 = 0 then True
      else False)"

definition daysInMonth :: "int \<Rightarrow> int \<Rightarrow> int" where
  "daysInMonth y m =
     (if m = 1 \<or> m = 3 \<or> m = 5 \<or> m = 7 \<or> m = 8 \<or> m = 10 \<or> m = 12 then 31
      else if m = 4 \<or> m = 6 \<or> m = 9 \<or> m = 11 then 30
      else if m = 2 then (if isLeapYear y then 29 else 28)
      else 30)"

definition isValidDate :: "Date \<Rightarrow> bool" where
  "isValidDate dt =
     (if year dt < 0 \<or> month dt < 1 \<or> month dt > 12 \<or> day dt < 1
         \<or> day dt > daysInMonth (year dt) (month dt) then False
      else if hour dt < 0 \<or> hour dt \<ge> 24 \<or> minute dt < 0 \<or> minute dt \<ge> 60 then False
      else True)"

definition cal_setHoliday :: "GregorianCalendar \<Rightarrow> Date \<Rightarrow> GregorianCalendar" where
  "cal_setHoliday cal dt =
     (if isValidDate dt then cal\<lparr>holidays := insert (getDate dt) (holidays cal)\<rparr> else cal)"

definition cal_setRecurringHoliday :: "GregorianCalendar \<Rightarrow> Date \<Rightarrow> GregorianCalendar" where
  "cal_setRecurringHoliday cal dt =
     (if isValidDate dt
      then cal\<lparr>recurring_holidays := insert (month dt, day dt) (recurring_holidays cal)\<rparr>
      else cal)"

definition isHoliday :: "GregorianCalendar \<Rightarrow> Date \<Rightarrow> fault + bool" where
  "isHoliday cal dt =
     (case dayOfWeek dt of
        Inl e \<Rightarrow> Inl e
      | Inr day_of_week \<Rightarrow>
          if day_of_week = 0 \<or> day_of_week = 6 then Inr True
          else if getDate dt \<in> holidays cal then Inr True
          else if (month dt, day dt) \<in> recurring_holidays cal then Inr True
          else Inr False)"

definition addDay :: "Date \<Rightarrow> Date" where
  "addDay date_i =
     (let newYear = year date_i; newMonth = month date_i; newDay = int32 (day date_i + 1)
      in if newDay > daysInMonth newYear newMonth
         then (if int32 (newMonth + 1) > 12
               then setDate date_i (int32 (newYear + 1)) 1 1 (hour date_i) (minute date_i)
               else setDate date_i newYear (int32 (newMonth + 1)) 1 (hour date_i) (minute date_i))
         else setDate date_i newYear newMonth newDay (hour date_i) (minute date_i))"

definition removeDay :: "Date \<Rightarrow> Date" where
  "removeDay dt =
     (let newYear = year dt; newMonth = month dt; newDay = int32 (day dt - 1)
      in if newDay < 1
         then (if int32 (newMonth - 1) < 1
               then setDate dt (int32 (newYear - 1)) 12 (daysInMonth (int32 (newYear - 1)) 12)
                      (hour dt) (minute dt)
               else setDate dt newYear (int32 (newMonth - 1))
                      (daysInMonth newYear (int32 (newMonth - 1))) (hour dt) (minute dt))
         else setDate dt newYear newMonth newDay (hour dt) (minute dt))"

section \<open>Computations that may fault or run forever\<close>

text \<open>
  A computation returns \<open>Some (Inr v)\<close> when the code returns \<open>v\<close>, \<open>Some (Inl e)\<close>
  when it reaches an operation without defined behaviour (no C++ exception is thrown
  there, so no \<open>catch\<close> sees it), and \<open>None\<close> when it never returns.
\<close>

type_synonym 'a comp = "(fault + 'a) option"

definition ret :: "'a \<Rightarrow> 'a comp" where
  "ret v = Some (Inr v)"

definition bnd :: "'a comp \<Rightarrow> ('a \<Rightarrow> 'b comp) \<Rightarrow> 'b comp" where
  "bnd m f = (case m of None \<Rightarrow> None | Some (Inl e) \<Rightarrow> Some (Inl e) | Some (Inr v) \<Rightarrow> f v)"

text \<open>A counted loop: the body runs \<open>n\<close> times, each run on the result of the one before.\<close>

fun repeatM :: "nat \<Rightarrow> ('a \<Rightarrow> 'a comp) \<Rightarrow> 'a \<Rightarrow> 'a comp" where
  "repeatM 0 body v = ret v"
| "repeatM (Suc n) body v = bnd (body v) (repeatM n body)"

section \<open>WorkdayCalendar\<close>

definition WORKWEEK_DURATION :: int where
  "WORKWEEK_DURATION = 5"

text \<open>
  The three owning pointers are options, \<open>None\<close> for \<open>nullptr\<close>. The calendar pointer is
  set by the constructor and never reset, so it is a plain field.
\<close>

record WorkdayCalendar =
  workday_start :: "Date option"
  workday_stop :: "Date option"
  workday_duration :: "Date option"
  calendar :: GregorianCalendar

definition newWorkdayCalendar :: WorkdayCalendar where
  "newWorkdayCalendar = \<lparr>workday_start = None, workday_stop = None, workday_duration = None,
                          calendar = newGregorianCalendar\<rparr>"

text \<open>
  \<open>updateWorkingDuration\<close> dereferences both pointers; its only caller has just set them.
\<close>

definition updateWorkingDuration :: "WorkdayCalendar \<Rightarrow> WorkdayCalendar" where
  "updateWorkingDuration s =
     (case (workday_stop s, workday_start s) of
        (Some stop, Some start) \<Rightarrow>
          (let (hours, mins) = subtractTime (getTime stop) (getTime start)
           in s\<lparr>workday_duration := Some (mkDate 0 0 0 hours mins)\<rparr>)
      | _ \<Rightarrow> s)"

definition setWorkdayStartAndStop :: "WorkdayCalendar \<Rightarrow> Date \<Rightarrow> Date \<Rightarrow> WorkdayCalendar" where
  "setWorkdayStartAndStop s start stop =
     (if \<not> isValidDate start then s\<lparr>workday_start := None, workday_stop := None\<rparr>
      else if \<not> isValidDate stop then s\<lparr>workday_start := None, workday_stop := None\<rparr>
      else updateWorkingDuration
             (s\<lparr>workday_start := Some (mkDate (year start) (month start) (day start)
                                       (hour start) (minute start)),
                workday_stop := Some (mkDate (year stop) (month stop) (day stop)
                                       (hour stop) (minute stop))\<rparr>))"

definition setHoliday :: "WorkdayCalendar \<Rightarrow> Date \<Rightarrow> WorkdayCalendar" where
  "setHoliday s dt = s\<lparr>calendar := cal_setHoliday (calendar s) dt\<rparr>"

definition setRecurringHoliday :: "WorkdayCalendar \<Rightarrow> Date \<Rightarrow> WorkdayCalendar" where
  "setRecurringHoliday s dt = s\<lparr>calendar := cal_setRecurringHoliday (calendar s) dt\<rparr>"

definition stepDay :: "bool \<Rightarrow> Date \<Rightarrow> Date" where
  "stepDay decrement dt = (if decrement then removeDay dt else addDay dt)"

text \<open>The \<open>while (calendar_->isHoliday(startDate))\<close> loop of \<open>incrementWorkDay\<close>.\<close>

partial_function (option) skipHolidays :: "GregorianCalendar \<Rightarrow> bool \<Rightarrow> Date \<Rightarrow> Date comp" where
  "skipHolidays cal decrement dt =
     (case isHoliday cal dt of
        Inl e \<Rightarrow> Some (Inl e)
      | Inr h \<Rightarrow> if h then skipHolidays cal decrement (stepDay decrement dt) else Some (Inr dt))"

declare skipHolidays.simps [code]

definition incrementWorkDay :: "GregorianCalendar \<Rightarrow> bool \<Rightarrow> Date \<Rightarrow> Date comp" where
  "incrementWorkDay cal decrement startDate = skipHolidays cal decrement (stepDay decrement startDate)"

definition incrementWorkWeek :: "GregorianCalendar \<Rightarrow> bool \<Rightarrow> Date \<Rightarrow> Date comp" where
  "incrementWorkWeek cal decrement startDate =
     repeatM (nat WORKWEEK_DURATION) (incrementWorkDay cal decrement) startDate"

text \<open>
  \<open>addRemainingMinutes\<close> and \<open>removeRemainingMinutes\<close> read the workday start and stop
  through their pointers; they are private and called only after the null checks of
  \<open>getWorkdayIncrement\<close>, so the model passes the two dates.
\<close>

definition addRemainingMinutes ::
  "GregorianCalendar \<Rightarrow> Date \<Rightarrow> Date \<Rightarrow> int \<Rightarrow> Date \<Rightarrow> Date comp" where
  "addRemainingMinutes cal wstart wstop minutes current =
     (let stop_minutes = convertToMinutes (getTime wstop);
          start_minutes = convertToMinutes (getTime wstart);
          current_minutes = convertToMinutes (getTime current)
      in bnd (if current_minutes \<ge> stop_minutes
              then bnd (incrementWorkDay cal False current)
                     (\<lambda>c. ret (setDate c (year c) (month c) (day c) (hour wstart) (minute wstart)))
              else if current_minutes < start_minutes
              then ret (setDate current (year current) (month current) (day current)
                          (hour wstart) (minute wstart))
              else ret current)
           (\<lambda>current.
              let current_minutes = convertToMinutes (getTime current)
              in if int32 (current_minutes + minutes) \<le> stop_minutes
                 then (let (hours, mins) = addMinutes current_minutes minutes
                       in ret (setDate current (year current) (month current) (day current) hours mins))
                 else bnd (incrementWorkDay cal False current)
                        (\<lambda>current.
                           let remaining_minutes =
                                 int32 (int32 (current_minutes + minutes) - stop_minutes);
                               (hours, mins) = addMinutes start_minutes remaining_minutes
                           in ret (setDate current (year current) (month current) (day current)
                                     hours mins))))"

definition removeRemainingMinutes ::
  "GregorianCalendar \<Rightarrow> Date \<Rightarrow> Date \<Rightarrow> int \<Rightarrow> Date \<Rightarrow> Date comp" where
  "removeRemainingMinutes cal wstart wstop minutes current =
     (let stop_minutes = convertToMinutes (getTime wstop);
          start_minutes = convertToMinutes (getTime wstart);
          current_minutes = convertToMinutes (getTime current)
      in bnd (if current_minutes \<ge> stop_minutes
              then ret (setDate current (year current) (month current) (day current)
                          (hour wstop) (minute wstop))
              else if current_minutes < start_minutes
              then bnd (incrementWorkDay cal True current)
                     (\<lambda>c. ret (setDate c (year c) (month c) (day c) (hour wstop) (minute wstop)))
              else ret current)
           (\<lambda>current.
              let current_minutes = convertToMinutes (getTime current)
              in if int32 (current_minutes - minutes) \<ge> start_minutes
                 then (let (hours, mins) = subtractMinutes current_minutes minutes
                       in ret (setDate current (year current) (month current) (day current) hours mins))
                 else bnd (incrementWorkDay cal True current)
                        (\<lambda>current.
                           let remaining_minutes =
                                 int32 (start_minutes - int32 (current_minutes - minutes));
                               (hours, mins) = subtractMinutes stop_minutes remaining_minutes
                           in ret (setDate current (year current) (month current) (day current)
                                     hours mins))))"

text \<open>
  The first loop of \<open>getWorkdayIncrement\<close> ("move to first workday"): each step also puts
  the clock on the workday stop (going back) or start (going forward).
\<close>

partial_function (option) moveToFirstWorkday ::
  "GregorianCalendar \<Rightarrow> Date \<Rightarrow> Date \<Rightarrow> bool \<Rightarrow> Date \<Rightarrow> Date comp" where
  "moveToFirstWorkday cal wstart wstop decrement current =
     (case isHoliday cal current of
        Inl e \<Rightarrow> Some (Inl e)
      | Inr h \<Rightarrow>
          if h
          then (if decrement
                then (let c = removeDay current
                      in moveToFirstWorkday cal wstart wstop decrement
                           (setDate c (year c) (month c) (day c) (hour wstop) (minute wstop)))
                else (let c = addDay current
                      in moveToFirstWorkday cal wstart wstop decrement
                           (setDate c (year c) (month c) (day c) (hour wstart) (minute wstart))))
          else Some (Inr current))"

declare moveToFirstWorkday.simps [code]

text \<open>
  The increment is a C++ \<open>float\<close>: an IEEE single-precision number, modelled by the
  rational number it stands for (infinities and NaN are not represented). The product
  \<open>incrementInWorkdays * workdayInMinutes\<close> is a product of floats: the \<open>long\<close>
  factor is converted to \<open>float\<close> and the exact product is rounded to the nearest
  float, a number with a significand of 24 bits, ties going to the even significand.
\<close>

function bit_length :: "int \<Rightarrow> int" where
  "bit_length n = (if n \<le> 0 then 0 else 1 + bit_length (n div 2))"
  by pat_completeness auto
termination
  by (relation "measure nat") auto

declare bit_length.simps [simp del]

definition pow2 :: "int \<Rightarrow> rat" where
  "pow2 k = (if 0 \<le> k then 2 ^ nat k else 1 / 2 ^ nat (- k))"

text \<open>The binary exponent \<open>e\<close> of a positive number \<open>r\<close>: \<open>2\<^sup>e \<le> r < 2\<^sup>e\<^sup>+\<^sup>1\<close>.\<close>

definition float_exponent :: "rat \<Rightarrow> int" where
  "float_exponent r =
     (let (p, q) = quotient_of r;
          c = bit_length p - bit_length q
      in if pow2 c \<le> r then c else c - 1)"

definition round_half_even :: "rat \<Rightarrow> int" where
  "round_half_even x =
     (let f = \<lfloor>x\<rfloor>; d = x - of_int f
      in if d < 1 / 2 then f else if 1 / 2 < d then f + 1 else if even f then f else f + 1)"

text \<open>
  Rounding to \<open>float\<close>: the spacing of the floats around \<open>r\<close> is \<open>2\<^sup>e\<^sup>-\<^sup>2\<^sup>3\<close>, and
  \<open>2\<^sup>-\<^sup>1\<^sup>4\<^sup>9\<close> for the smallest ones. A result beyond the largest float, an infinity in
  the program, is kept as the number it rounds to: it is outside the range of \<open>long\<close>
  like every float from \<open>2\<^sup>6\<^sup>3\<close> on, and the conversion to \<open>long\<close> below faults on it.
\<close>

definition float_round :: "rat \<Rightarrow> rat" where
  "float_round r =
     (if r = 0 then 0
      else let a = \<bar>r\<bar>;
               ulp = pow2 (max (float_exponent a - 23) (- 149))
           in sgn r * (of_int (round_half_even (a / ulp)) * ulp))"

definition long_to_float :: "int \<Rightarrow> rat" where
  "long_to_float n = float_round (of_int n)"

definition float_mult :: "rat \<Rightarrow> rat \<Rightarrow> rat" where
  "float_mult x y = float_round (x * y)"

text \<open>
  \<open>static_cast<long>\<close> truncates towards zero. A \<open>long\<close> has 64 bits here; a float whose
  truncation no \<open>long\<close> holds has no defined conversion.
\<close>

definition LONG_MIN :: int where
  "LONG_MIN = - 9223372036854775808"

definition LONG_MAX :: int where
  "LONG_MAX = 9223372036854775807"

definition truncate_to_long :: "rat \<Rightarrow> int" where
  "truncate_to_long r = (if r \<ge> 0 then \<lfloor>r\<rfloor> else \<lceil>r\<rceil>)"

text \<open>
  The counts \<open>workDays\<close> and \<open>remaining_minutes\<close> are \<open>int\<close> variables initialised from
  \<open>long\<close> values, which keeps the low 32 bits.
\<close>

definition getWorkdayIncrement :: "WorkdayCalendar \<Rightarrow> Date \<Rightarrow> rat \<Rightarrow> Date comp" where
  "getWorkdayIncrement s startDate incrementInWorkdays =
     (if \<not> isValidDate startDate then ret generateInvalidDate
      else case (workday_start s, workday_stop s, workday_duration s) of
        (Some wstart, Some wstop, Some wduration) \<Rightarrow>
          (let decrement = incrementInWorkdays < 0;
               incrementInWorkdays = (if decrement then - incrementInWorkdays else incrementInWorkdays);
               current = startDate;
               workdayInMinutes = convertToMinutes (getTime wduration);
               workDay_IncrementInMinutes =
                 truncate_to_long (float_mult incrementInWorkdays (long_to_float workdayInMinutes))
           in if workDay_IncrementInMinutes < LONG_MIN \<or> LONG_MAX < workDay_IncrementInMinutes
              then Some (Inl CastOutOfRange)
              else if workdayInMinutes = 0 then Some (Inl DivByZero)
              else if workDay_IncrementInMinutes = LONG_MIN \<and> workdayInMinutes = - 1
              then Some (Inl DivOverflow)
              else
                let workDays = int32 (c_div workDay_IncrementInMinutes workdayInMinutes);
                    workWeeks = c_div workDays WORKWEEK_DURATION
                in bnd (moveToFirstWorkday (calendar s) wstart wstop decrement current)
                  (\<lambda>current. bnd (repeatM (nat workWeeks) (incrementWorkWeek (calendar s) decrement) current)
                  (\<lambda>current.
                     let remainingWorkDays = c_mod workDays WORKWEEK_DURATION
                     in bnd (repeatM (nat remainingWorkDays) (incrementWorkDay (calendar s) decrement) current)
                  (\<lambda>current.
                     let remaining_minutes = int32 (c_mod workDay_IncrementInMinutes workdayInMinutes)
                     in if decrement
                        then removeRemainingMinutes (calendar s) wstart wstop remaining_minutes current
                        else addRemainingMinutes (calendar s) wstart wstop remaining_minutes current))))
      | _ \<Rightarrow> ret generateInvalidDate)"

section \<open>The calendar rules as the specification words them\<close>

text \<open>
  The leap-year rule and the table of month lengths, written as the specification states
  them; they are compared with \<open>isLeapYear\<close> and \<open>daysInMonth\<close> of the source below.
\<close>

definition spec_isLeapYear :: "int \<Rightarrow> bool" where
  "spec_isLeapYear y = ((c_mod y 4 = 0 \<and> c_mod y 100 \<noteq> 0) \<or> c_mod y 400 = 0)"

definition spec_daysInMonth :: "int \<Rightarrow> int \<Rightarrow> int" where
  "spec_daysInMonth y m =
     [31, if spec_isLeapYear y then 29 else 28, 31, 30, 31, 30, 31, 31, 30, 31, 30, 31] ! nat (m - 1)"

section \<open>Counting calendar days\<close>

text \<open>
  The number of a calendar day, counted from 0000-01-01 as day 1: the days of the years
  before it, the days of the months before it in its year, and its day of the month. It
  measures what "one calendar day later" means for \<open>addDay\<close> and \<open>removeDay\<close>.
\<close>

fun daysBeforeYear :: "nat \<Rightarrow> int" where
  "daysBeforeYear 0 = 0"
| "daysBeforeYear (Suc y) = daysBeforeYear y + (if isLeapYear (int y) then 366 else 365)"

definition daysBeforeMonth :: "int \<Rightarrow> int \<Rightarrow> int" where
  "daysBeforeMonth y m = sum_list (map (daysInMonth y) [1..m - 1])"

definition dayNumber :: "Date \<Rightarrow> int" where
  "dayNumber dt = daysBeforeYear (nat (year dt)) + daysBeforeMonth (year dt) (month dt) + day dt"

section \<open>States of the workday calendar\<close>

text \<open>The configuration of the repository's tests: workday from 08:00 to 16:00, no holidays.\<close>

definition workday_8_to_16 :: WorkdayCalendar where
  "workday_8_to_16 = setWorkdayStartAndStop newWorkdayCalendar (mkDate 2004 1 1 8 0) (mkDate 2004 1 1 16 0)"

text \<open>
  Start and stop are set to two valid dates and the duration is the one
  \<open>updateWorkingDuration\<close> derives from them.
\<close>

definition configured :: "WorkdayCalendar \<Rightarrow> Date \<Rightarrow> Date \<Rightarrow> bool" where
  "configured s wstart wstop \<longleftrightarrow>
     isValidDate wstart \<and> isValidDate wstop
     \<and> workday_start s = Some wstart \<and> workday_stop s = Some wstop
     \<and> workday_duration s =
         Some (mkDate 0 0 0 (fst (subtractTime (getTime wstop) (getTime wstart)))
                            (snd (subtractTime (getTime wstop) (getTime wstart))))"

text \<open>The states a client can produce through the public operations.\<close>

inductive reachable :: "WorkdayCalendar \<Rightarrow> bool" where
  reachable_new: "reachable newWorkdayCalendar"
| reachable_setWorkdayStartAndStop: "reachable s \<Longrightarrow> reachable (setWorkdayStartAndStop s start stop)"
| reachable_setHoliday: "reachable s \<Longrightarrow> reachable (setHoliday s dt)"
| reachable_setRecurringHoliday: "reachable s \<Longrightarrow> reachable (setRecurringHoliday s dt)"

text \<open>
  A calendar in which every day of the year is a recurring holiday: the 366 days of the
  leap year 2024 are registered one after the other on the 08:00 to 16:00 configuration.
\<close>

definition allDays2024 :: "Date list" where
  "allDays2024 = concat (map (\<lambda>m. map (\<lambda>d. mkDate 2024 m d 0 0) [1..daysInMonth 2024 m]) [1..12])"

definition everyDayRecurring :: WorkdayCalendar where
  "everyDayRecurring = foldl setRecurringHoliday workday_8_to_16 allDays2024"

section \<open>Properties\<close>

subsection \<open>Division and remainder\<close>

lemma c_div_nonneg: "0 \<le> a \<Longrightarrow> 0 < b \<Longrightarrow> c_div a b = a div b"
  by (simp add: c_div_def)

lemma c_mod_nonneg: "0 \<le> a \<Longrightarrow> 0 < b \<Longrightarrow> c_mod a b = a mod b"
  by (simp add: c_mod_def c_div_def minus_mult_div_eq_mod)

lemma c_div_neg: "a < 0 \<Longrightarrow> 0 < b \<Longrightarrow> c_div a b = - ((- a) div b)"
  by (simp add: c_div_def)

lemma c_mod_neg: "a < 0 \<Longrightarrow> 0 < b \<Longrightarrow> c_mod a b = - ((- a) mod b)"
proof -
  assume a: "a < 0" and b: "0 < b"
  have "(- a) mod b = (- a) - b * ((- a) div b)"
    by (simp add: minus_mult_div_eq_mod)
  with a b show ?thesis
    by (simp add: c_mod_def c_div_def)
qed

lemma c_mod_eq_0_iff: "0 < b \<Longrightarrow> c_mod a b = 0 \<longleftrightarrow> b dvd a"
  by (cases "a < 0") (simp_all add: c_mod_neg c_mod_nonneg dvd_eq_mod_eq_0 [symmetric])

lemma c_div_c_mod: "b * c_div a b + c_mod a b = a"
  by (simp add: c_mod_def)

subsection \<open>Wrap-around\<close>

lemma int32_id: "INT_MIN \<le> x \<Longrightarrow> x \<le> INT_MAX \<Longrightarrow> int32 x = x"
  by (simp add: int32_def INT_MIN_def INT_MAX_def)

lemma int32_range: "INT_MIN \<le> int32 x \<and> int32 x \<le> INT_MAX"
proof -
  have "0 \<le> (x + 2147483648) mod 4294967296" "(x + 2147483648) mod 4294967296 < 4294967296"
    by simp_all
  then show ?thesis
    unfolding int32_def INT_MIN_def INT_MAX_def by linarith
qed

lemma int32_small: "- 2147483648 \<le> x \<Longrightarrow> x \<le> 2147483647 \<Longrightarrow> int32 x = x"
  by (simp add: int32_def)

subsection \<open>Validity of dates\<close>

lemma month_cases:
  "1 \<le> (m::int) \<Longrightarrow> m \<le> 12 \<Longrightarrow>
   m = 1 \<or> m = 2 \<or> m = 3 \<or> m = 4 \<or> m = 5 \<or> m = 6 \<or> m = 7 \<or> m = 8 \<or> m = 9 \<or> m = 10 \<or> m = 11 \<or> m = 12"
  by arith

lemma isLeapYear_dvd: "isLeapYear y \<longleftrightarrow> (4 dvd y \<and> \<not> 100 dvd y) \<or> 400 dvd y"
  unfolding isLeapYear_def by (simp add: c_mod_eq_0_iff) presburger

lemma isLeapYear_spec: "isLeapYear y = spec_isLeapYear y"
  by (simp add: isLeapYear_dvd spec_isLeapYear_def c_mod_eq_0_iff)

lemma daysInMonth_spec: "1 \<le> m \<Longrightarrow> m \<le> 12 \<Longrightarrow> daysInMonth y m = spec_daysInMonth y m"
  using month_cases [of m]
  by (auto simp: daysInMonth_def spec_daysInMonth_def isLeapYear_spec)

lemma isValidDate_spec:
  "isValidDate dt \<longleftrightarrow>
      year dt \<ge> 0 \<and> 1 \<le> month dt \<and> month dt \<le> 12
      \<and> 1 \<le> day dt \<and> day dt \<le> spec_daysInMonth (year dt) (month dt)
      \<and> 0 \<le> hour dt \<and> hour dt < 24 \<and> 0 \<le> minute dt \<and> minute dt < 60"
proof (cases "1 \<le> month dt \<and> month dt \<le> 12")
  case True
  then have "daysInMonth (year dt) (month dt) = spec_daysInMonth (year dt) (month dt)"
    by (simp add: daysInMonth_spec)
  then show ?thesis
    unfolding isValidDate_def by auto
next
  case False
  then show ?thesis
    unfolding isValidDate_def by auto
qed

lemma feb_length: "daysInMonth y 2 = (if spec_isLeapYear y then 29 else 28)"
  by (simp add: daysInMonth_def isLeapYear_spec)

lemma leap_examples:
  "isLeapYear 2024" "isLeapYear 2000" "\<not> isLeapYear 2023" "\<not> isLeapYear 1900"
  by (simp_all add: isLeapYear_dvd)

text \<open>
  Claim C5. \<open>isValidDate\<close> holds exactly when the year is not negative, the month is in
  1..12, the day is in 1..\<open>daysInMonth\<close> (the 30/31-day table of the specification, with
  February of 29 days exactly in the years with \<open>(y%4==0 && y%100!=0) || y%400==0\<close>),
  the hour is in 0..23 and the minute in 0..59. February 29 is a valid day in 2024 and
  2000, and not in 2023 and 1900. The function is total: it returns a truth value on
  every five integers.
\<close>

theorem isValidDate_iff:
  "(isValidDate dt \<longleftrightarrow>
      year dt \<ge> 0 \<and> 1 \<le> month dt \<and> month dt \<le> 12
      \<and> 1 \<le> day dt \<and> day dt \<le> spec_daysInMonth (year dt) (month dt)
      \<and> 0 \<le> hour dt \<and> hour dt < 24 \<and> 0 \<le> minute dt \<and> minute dt < 60)
   \<and> (daysInMonth y 2 = 29 \<longleftrightarrow> (c_mod y 4 = 0 \<and> c_mod y 100 \<noteq> 0) \<or> c_mod y 400 = 0)
   \<and> (daysInMonth y 2 = 28 \<longleftrightarrow> \<not> ((c_mod y 4 = 0 \<and> c_mod y 100 \<noteq> 0) \<or> c_mod y 400 = 0))
   \<and> isValidDate (mkDate 2024 2 29 h mi) = (0 \<le> h \<and> h < 24 \<and> 0 \<le> mi \<and> mi < 60)
   \<and> isValidDate (mkDate 2000 2 29 h mi) = (0 \<le> h \<and> h < 24 \<and> 0 \<le> mi \<and> mi < 60)
   \<and> \<not> isValidDate (mkDate 2023 2 29 h mi)
   \<and> \<not> isValidDate (mkDate 1900 2 29 h mi)"
proof -
  have ex: "isValidDate (mkDate 2024 2 29 h mi) = (0 \<le> h \<and> h < 24 \<and> 0 \<le> mi \<and> mi < 60)"
    "isValidDate (mkDate 2000 2 29 h mi) = (0 \<le> h \<and> h < 24 \<and> 0 \<le> mi \<and> mi < 60)"
    "\<not> isValidDate (mkDate 2023 2 29 h mi)" "\<not> isValidDate (mkDate 1900 2 29 h mi)"
    by (auto simp: isValidDate_def mkDate_def daysInMonth_def leap_examples)
  have feb: "daysInMonth y 2 = 29 \<longleftrightarrow> (c_mod y 4 = 0 \<and> c_mod y 100 \<noteq> 0) \<or> c_mod y 400 = 0"
    "daysInMonth y 2 = 28 \<longleftrightarrow> \<not> ((c_mod y 4 = 0 \<and> c_mod y 100 \<noteq> 0) \<or> c_mod y 400 = 0)"
    by (simp_all add: feb_length spec_isLeapYear_def)
  show ?thesis
    using isValidDate_spec [of dt] ex feb by blast
qed

subsection \<open>Minute arithmetic\<close>

lemma convertToMinutes_pair: "convertToMinutes (c_div x 60, c_mod x 60) = int32 x"
  using c_div_c_mod [of 60 x] by (simp add: convertToMinutes_def MINUTES_IN_HOUR_def mult.commute)

lemma addMinutes_wrapped:
  "addMinutes left right = (c_div (int32 (left + right)) 60, c_mod (int32 (left + right)) 60)"
  by (simp add: addMinutes_def MINUTES_IN_HOUR_def Let_def)

lemma subtractMinutes_wrapped:
  "subtractMinutes larger smaller =
     (c_div (if int32 (larger - smaller) < 0 then int32 (larger - smaller) + 1440
             else int32 (larger - smaller)) 60,
      c_mod (if int32 (larger - smaller) < 0 then int32 (larger - smaller) + 1440
             else int32 (larger - smaller)) 60)"
  by (simp add: subtractMinutes_def MINUTES_IN_HOUR_def MINUTES_IN_DAY_def Let_def)

text \<open>
  Claim C8, as stated, fails. The sum and the difference are 32-bit \<open>int\<close> values, and
  the claim speaks of all integer minute counts: at \<open>INT_MAX\<close> and 1 the sum wraps
  around and \<open>addMinutes\<close> returns (-35791394, -8) where the quotient and remainder of
  the sum 2147483648 are (35791394, 8); at \<open>INT_MIN\<close> and 1 the difference wraps to
  \<open>INT_MAX\<close>, nothing is added, and \<open>subtractMinutes\<close> returns (35791394, 7).
\<close>

theorem addMinutes_subtractMinutes_overflow:
  "addMinutes 2147483647 1 = (- 35791394, - 8)
   \<and> addMinutes 2147483647 1 \<noteq> (c_div (2147483647 + 1) 60, c_mod (2147483647 + 1) 60)
   \<and> subtractMinutes (- 2147483648) 1 = (35791394, 7)
   \<and> subtractMinutes (- 2147483648) 1
       \<noteq> (c_div (- 2147483648 - 1 + 1440) 60, c_mod (- 2147483648 - 1 + 1440) 60)"
  by (simp add: addMinutes_wrapped subtractMinutes_wrapped int32_def c_div_def c_mod_def)

text \<open>
  Claim C8, amended. For all \<open>int\<close> minute counts whose sum \<open>base + delta\<close> is an
  \<open>int\<close>, \<open>addMinutes(base, delta)\<close> returns the quotient and the remainder of the sum
  by 60; nothing is reduced modulo 24 hours, so the hour may be 24 or more (1430 + 20
  minutes give 24:10) and the pair stands for \<open>base + delta\<close> minutes. For all \<open>int\<close>
  minute counts whose difference \<open>larger - smaller\<close> is an \<open>int\<close>,
  \<open>subtractMinutes(larger, smaller)\<close> takes the difference, adds 1440 when it is
  negative, and returns the quotient and remainder by 60 of what it then has, a pair
  that stands for that many minutes. Outside these ranges the same holds of the
  wrapped sum and difference.
\<close>

theorem addMinutes_subtractMinutes:
  "(INT_MIN \<le> base + delta \<and> base + delta \<le> INT_MAX \<longrightarrow>
      addMinutes base delta = (c_div (base + delta) 60, c_mod (base + delta) 60)
      \<and> convertToMinutes (addMinutes base delta) = base + delta)
   \<and> addMinutes 1430 20 = (24, 10)
   \<and> (INT_MIN \<le> larger - smaller \<and> larger - smaller \<le> INT_MAX \<longrightarrow>
      subtractMinutes larger smaller =
        (c_div (if larger - smaller < 0 then larger - smaller + 1440 else larger - smaller) 60,
         c_mod (if larger - smaller < 0 then larger - smaller + 1440 else larger - smaller) 60)
      \<and> convertToMinutes (subtractMinutes larger smaller) =
        (if larger - smaller < 0 then larger - smaller + 1440 else larger - smaller))
   \<and> subtractMinutes 480 540 = (23, 0)
   \<and> addMinutes base delta = (c_div (int32 (base + delta)) 60, c_mod (int32 (base + delta)) 60)
   \<and> subtractMinutes larger smaller =
       (c_div (if int32 (larger - smaller) < 0 then int32 (larger - smaller) + 1440
               else int32 (larger - smaller)) 60,
        c_mod (if int32 (larger - smaller) < 0 then int32 (larger - smaller) + 1440
               else int32 (larger - smaller)) 60)"
proof -
  have a: "INT_MIN \<le> base + delta \<and> base + delta \<le> INT_MAX \<longrightarrow>
      addMinutes base delta = (c_div (base + delta) 60, c_mod (base + delta) 60)
      \<and> convertToMinutes (addMinutes base delta) = base + delta"
    by (simp add: addMinutes_wrapped convertToMinutes_pair int32_id)
  have s: "INT_MIN \<le> larger - smaller \<and> larger - smaller \<le> INT_MAX \<longrightarrow>
      subtractMinutes larger smaller =
        (c_div (if larger - smaller < 0 then larger - smaller + 1440 else larger - smaller) 60,
         c_mod (if larger - smaller < 0 then larger - smaller + 1440 else larger - smaller) 60)
      \<and> convertToMinutes (subtractMinutes larger smaller) =
        (if larger - smaller < 0 then larger - smaller + 1440 else larger - smaller)"
  proof
    assume r: "INT_MIN \<le> larger - smaller \<and> larger - smaller \<le> INT_MAX"
    then have w: "int32 (larger - smaller) = larger - smaller"
      by (simp add: int32_id)
    have "INT_MIN \<le> (if larger - smaller < 0 then larger - smaller + 1440 else larger - smaller)"
      "(if larger - smaller < 0 then larger - smaller + 1440 else larger - smaller) \<le> INT_MAX"
      using r by (auto simp: INT_MIN_def INT_MAX_def)
    then have "int32 (if larger - smaller < 0 then larger - smaller + 1440 else larger - smaller)
        = (if larger - smaller < 0 then larger - smaller + 1440 else larger - smaller)"
      by (rule int32_id)
    then show "subtractMinutes larger smaller =
        (c_div (if larger - smaller < 0 then larger - smaller + 1440 else larger - smaller) 60,
         c_mod (if larger - smaller < 0 then larger - smaller + 1440 else larger - smaller) 60)
      \<and> convertToMinutes (subtractMinutes larger smaller) =
        (if larger - smaller < 0 then larger - smaller + 1440 else larger - smaller)"
      unfolding subtractMinutes_wrapped w convertToMinutes_pair by simp
  qed
  have e: "addMinutes 1430 20 = (24, 10)" "subtractMinutes 480 540 = (23, 0)"
    by (simp_all add: addMinutes_wrapped subtractMinutes_wrapped int32_def c_div_def c_mod_def)
  from a s e addMinutes_wrapped [of base delta] subtractMinutes_wrapped [of larger smaller]
  show ?thesis by (intro conjI) assumption+
qed

theorem addMinutes_subtractMinutes_witness:
  "INT_MIN \<le> 1430 + 20 \<and> 1430 + 20 \<le> INT_MAX
   \<and> addMinutes 1430 20 = (c_div (1430 + 20) 60, c_mod (1430 + 20) 60)
   \<and> convertToMinutes (addMinutes 1430 20) = 1430 + 20
   \<and> INT_MIN \<le> 480 - 540 \<and> 480 - 540 \<le> INT_MAX
   \<and> convertToMinutes (subtractMinutes 480 540) = 480 - 540 + 1440"
proof -
  have r1: "INT_MIN \<le> 1430 + 20 \<and> 1430 + 20 \<le> INT_MAX"
    by (simp add: INT_MIN_def INT_MAX_def)
  have r2: "INT_MIN \<le> 480 - 540 \<and> 480 - 540 \<le> INT_MAX"
    by (simp add: INT_MIN_def INT_MAX_def)
  note t = addMinutes_subtractMinutes [where base = 1430 and delta = 20 and larger = 480 and smaller = 540]
  note a = t [THEN conjunct1, THEN mp, OF r1]
  note s = t [THEN conjunct2, THEN conjunct2, THEN conjunct1, THEN mp, OF r2, THEN conjunct2]
  have n: "(if (480::int) - 540 < 0 then 480 - 540 + 1440 else 480 - 540) = 480 - 540 + 1440"
    by simp
  show ?thesis
    using r1 r2 a s [unfolded n] by (intro conjI) (elim conjE | assumption)+
qed

subsection \<open>The month table of dayOfWeek\<close>

lemma array_read_t_table:
  "(\<exists>v. array_read t_table i = Inr v) \<longleftrightarrow> 0 \<le> i \<and> i < 12"
  by (auto simp: array_read_def t_table_def)

lemma dayOfWeek_defined: "(\<exists>w. dayOfWeek dt = Inr w) \<longleftrightarrow> 1 \<le> month dt \<and> month dt \<le> 12"
  by (auto simp: dayOfWeek_def array_read_def t_table_def Let_def)

lemma dayOfWeek_fault: "dayOfWeek dt = Inl e \<longleftrightarrow> e = OutOfBounds \<and> \<not> (1 \<le> month dt \<and> month dt \<le> 12)"
  by (auto simp: dayOfWeek_def array_read_def t_table_def Let_def)

lemma isHoliday_fault: "isHoliday cal dt = Inl e \<longleftrightarrow> dayOfWeek dt = Inl e"
  by (auto simp: isHoliday_def split: sum.splits)

text \<open>
  Claim C10. \<open>dayOfWeek\<close> reads its table of twelve month offsets at \<open>month - 1\<close>
  unchecked. The read is inside the table exactly for the months 1..12, so for those
  \<open>dayOfWeek\<close> returns a value. \<open>isHoliday\<close> calls \<open>dayOfWeek\<close> before anything else and
  checks nothing, so on every date with a month outside 1..12, the invalid date of five
  times -1 among them, it reads outside the table.
\<close>

theorem dayOfWeek_table_bounds:
  "((\<exists>off. array_read t_table (month dt - 1) = Inr off) \<longleftrightarrow> 1 \<le> month dt \<and> month dt \<le> 12)
   \<and> ((\<exists>w. dayOfWeek dt = Inr w) \<longleftrightarrow> 1 \<le> month dt \<and> month dt \<le> 12)
   \<and> (isHoliday cal dt = Inl OutOfBounds \<longleftrightarrow> \<not> (1 \<le> month dt \<and> month dt \<le> 12))
   \<and> \<not> isValidDate generateInvalidDate
   \<and> isHoliday cal generateInvalidDate = Inl OutOfBounds"
proof -
  have "isHoliday cal generateInvalidDate = Inl OutOfBounds"
    by (simp add: isHoliday_fault dayOfWeek_fault generateInvalidDate_def mkDate_def)
  moreover have "\<not> isValidDate generateInvalidDate"
    by (simp add: isValidDate_def generateInvalidDate_def mkDate_def)
  moreover have "(\<exists>off. array_read t_table (month dt - 1) = Inr off) \<longleftrightarrow> 1 \<le> month dt \<and> month dt \<le> 12"
    by (auto simp: array_read_t_table)
  ultimately show ?thesis
    by (simp add: dayOfWeek_defined isHoliday_fault dayOfWeek_fault)
qed

subsection \<open>Holidays\<close>

text \<open>
  Claim C6. \<open>isHoliday\<close> is true exactly when \<open>dayOfWeek\<close> is 0 (Sunday) or 6
  (Saturday), or the "YYYY-MM-DD" key of the date is in the set of one-time holidays, or
  its (month, day) pair is in the set of recurring holidays. The day of the week is taken
  first, on the date as it is: a weekend day is a holiday whatever the sets hold, no
  validity check comes before it (an invalid date with a month in 1..12 is classified
  like any other, and where \<open>dayOfWeek\<close> has no result \<open>isHoliday\<close> has none). The two
  sets are those filled by \<open>setHoliday\<close> and \<open>setRecurringHoliday\<close>.
\<close>

theorem isHoliday_iff:
  "isHoliday cal dt =
     (case dayOfWeek dt of
        Inl e \<Rightarrow> Inl e
      | Inr w \<Rightarrow> Inr (w = 0 \<or> w = 6 \<or> getDate dt \<in> holidays cal
                      \<or> (month dt, day dt) \<in> recurring_holidays cal))
   \<and> (dayOfWeek dt = Inr 0 \<or> dayOfWeek dt = Inr 6 \<longrightarrow> isHoliday cal dt = Inr True)
   \<and> (1 \<le> month dt \<and> month dt \<le> 12 \<longrightarrow>
        (\<exists>w. dayOfWeek dt = Inr w \<and>
             isHoliday cal dt = Inr (w = 0 \<or> w = 6 \<or> getDate dt \<in> holidays cal
                                      \<or> (month dt, day dt) \<in> recurring_holidays cal)))
   \<and> holidays (cal_setHoliday cal dt) =
        (if isValidDate dt then insert (getDate dt) (holidays cal) else holidays cal)
   \<and> recurring_holidays (cal_setRecurringHoliday cal dt) =
        (if isValidDate dt then insert (month dt, day dt) (recurring_holidays cal)
         else recurring_holidays cal)"
proof -
  have eq: "isHoliday cal dt =
     (case dayOfWeek dt of
        Inl e \<Rightarrow> Inl e
      | Inr w \<Rightarrow> Inr (w = 0 \<or> w = 6 \<or> getDate dt \<in> holidays cal
                      \<or> (month dt, day dt) \<in> recurring_holidays cal))"
    by (simp add: isHoliday_def split: sum.splits)
  have weekend: "dayOfWeek dt = Inr 0 \<or> dayOfWeek dt = Inr 6 \<longrightarrow> isHoliday cal dt = Inr True"
    by (auto simp: isHoliday_def)
  have inrange: "1 \<le> month dt \<and> month dt \<le> 12 \<longrightarrow>
        (\<exists>w. dayOfWeek dt = Inr w \<and>
             isHoliday cal dt = Inr (w = 0 \<or> w = 6 \<or> getDate dt \<in> holidays cal
                                      \<or> (month dt, day dt) \<in> recurring_holidays cal))"
  proof
    assume "1 \<le> month dt \<and> month dt \<le> 12"
    then obtain w where "dayOfWeek dt = Inr w"
      using dayOfWeek_defined [of dt] by blast
    then show "\<exists>w. dayOfWeek dt = Inr w \<and>
             isHoliday cal dt = Inr (w = 0 \<or> w = 6 \<or> getDate dt \<in> holidays cal
                                      \<or> (month dt, day dt) \<in> recurring_holidays cal)"
      by (simp add: eq)
  qed
  have sets: "holidays (cal_setHoliday cal dt) =
        (if isValidDate dt then insert (getDate dt) (holidays cal) else holidays cal)"
    "recurring_holidays (cal_setRecurringHoliday cal dt) =
        (if isValidDate dt then insert (month dt, day dt) (recurring_holidays cal)
         else recurring_holidays cal)"
    by (simp_all add: cal_setHoliday_def cal_setRecurringHoliday_def)
  from eq weekend inrange sets show ?thesis by blast
qed

theorem isHoliday_iff_witness:
  "(dayOfWeek (mkDate 2024 5 11 9 0) = Inr 0 \<or> dayOfWeek (mkDate 2024 5 11 9 0) = Inr 6)
   \<and> 1 \<le> month (mkDate 2024 5 11 9 0) \<and> month (mkDate 2024 5 11 9 0) \<le> 12
   \<and> isHoliday newGregorianCalendar (mkDate 2024 5 11 9 0) = Inr True
   \<and> \<not> isValidDate (mkDate 2024 5 34 9 0)
   \<and> isHoliday newGregorianCalendar (mkDate 2024 5 34 9 0) = Inr False"
proof -
  have a: "dayOfWeek (mkDate 2024 5 11 9 0) = Inr 6"
    by (simp add: dayOfWeek_def mkDate_def array_read_def t_table_def c_div_def c_mod_def int32_def)
  have b: "dayOfWeek (mkDate 2024 5 34 9 0) = Inr 1"
    by (simp add: dayOfWeek_def mkDate_def array_read_def t_table_def c_div_def c_mod_def int32_def)
  have c: "\<not> isValidDate (mkDate 2024 5 34 9 0)"
    by (simp add: isValidDate_def mkDate_def daysInMonth_def)
  have d: "isHoliday newGregorianCalendar (mkDate 2024 5 34 9 0) = Inr False"
    using isHoliday_iff [where cal = newGregorianCalendar and dt = "mkDate 2024 5 34 9 0"] b
    by (simp add: newGregorianCalendar_def)
  have m: "month (mkDate 2024 5 11 9 0) = 5"
    by (simp add: mkDate_def)
  show ?thesis
    using isHoliday_iff [where cal = newGregorianCalendar and dt = "mkDate 2024 5 11 9 0"] a c d m by simp
qed

subsection \<open>Dates as records\<close>

lemma mkDate_fields: "mkDate (year d) (month d) (day d) (hour d) (minute d) = (d::Date)"
  by (simp add: mkDate_def)

subsection \<open>Configuration of the workday\<close>

text \<open>
  Claim C4. After \<open>setWorkdayStartAndStop(start, stop)\<close> the configuration is either
  fully set (both dates valid, both stored, and the duration recomputed as stop time
  minus start time) or fully cleared (one of the two dates invalid, start and stop both
  absent). Start and stop are never set one without the other.
\<close>

theorem setWorkdayStartAndStop_all_or_nothing:
  "(isValidDate start \<and> isValidDate stop
      \<and> workday_start (setWorkdayStartAndStop s start stop) = Some start
      \<and> workday_stop (setWorkdayStartAndStop s start stop) = Some stop
      \<and> workday_duration (setWorkdayStartAndStop s start stop) =
          Some (mkDate 0 0 0 (fst (subtractTime (getTime stop) (getTime start)))
                             (snd (subtractTime (getTime stop) (getTime start)))))
   \<or> (\<not> (isValidDate start \<and> isValidDate stop)
      \<and> workday_start (setWorkdayStartAndStop s start stop) = None
      \<and> workday_stop (setWorkdayStartAndStop s start stop) = None)"
  by (auto simp: setWorkdayStartAndStop_def updateWorkingDuration_def mkDate_fields split: prod.splits)

theorem setWorkdayStartAndStop_all_or_nothing_witness:
  "isValidDate (mkDate 2024 5 20 8 0) \<and> isValidDate (mkDate 2024 5 20 17 0)
   \<and> workday_start (setWorkdayStartAndStop newWorkdayCalendar (mkDate 2024 5 20 8 0) (mkDate 2024 5 20 17 0))
       = Some (mkDate 2024 5 20 8 0)
   \<and> workday_stop (setWorkdayStartAndStop newWorkdayCalendar (mkDate 2024 5 20 8 0) (mkDate 2024 5 20 17 0))
       = Some (mkDate 2024 5 20 17 0)
   \<and> workday_duration (setWorkdayStartAndStop newWorkdayCalendar (mkDate 2024 5 20 8 0) (mkDate 2024 5 20 17 0))
       = Some (mkDate 0 0 0 9 0)
   \<and> \<not> isValidDate (mkDate 2024 (-5) 20 8 0)
   \<and> workday_start (setWorkdayStartAndStop
         (setWorkdayStartAndStop newWorkdayCalendar (mkDate 2024 5 20 8 0) (mkDate 2024 5 20 17 0))
         (mkDate 2024 (-5) 20 8 0) (mkDate 2024 5 20 17 0)) = None
   \<and> workday_stop (setWorkdayStartAndStop
         (setWorkdayStartAndStop newWorkdayCalendar (mkDate 2024 5 20 8 0) (mkDate 2024 5 20 17 0))
         (mkDate 2024 (-5) 20 8 0) (mkDate 2024 5 20 17 0)) = None"
proof -
  have v: "isValidDate (mkDate 2024 5 20 8 0)" "isValidDate (mkDate 2024 5 20 17 0)"
    "\<not> isValidDate (mkDate 2024 (-5) 20 8 0)"
    by (simp_all add: isValidDate_def mkDate_def daysInMonth_def)
  have t: "subtractTime (getTime (mkDate 2024 5 20 17 0)) (getTime (mkDate 2024 5 20 8 0)) = (9, 0)"
    by (simp add: subtractTime_def getTime_def mkDate_def convertToMinutes_def MINUTES_IN_HOUR_def
        MINUTES_IN_DAY_def c_div_def c_mod_def int32_def)
  show ?thesis
    using v t
      setWorkdayStartAndStop_all_or_nothing [where start = "mkDate 2024 5 20 8 0"
         and stop = "mkDate 2024 5 20 17 0" and s = newWorkdayCalendar]
      setWorkdayStartAndStop_all_or_nothing [where start = "mkDate 2024 (-5) 20 8 0"
         and stop = "mkDate 2024 5 20 17 0"
         and s = "setWorkdayStartAndStop newWorkdayCalendar (mkDate 2024 5 20 8 0) (mkDate 2024 5 20 17 0)"]
    by simp
qed

subsection \<open>One calendar day forward and back\<close>

lemma daysBeforeMonth_next:
  "1 \<le> m \<Longrightarrow> daysBeforeMonth y (m + 1) = daysBeforeMonth y m + daysInMonth y m"
  by (simp add: daysBeforeMonth_def upto_rec2 [of 1 m])

lemma daysBeforeMonth_1: "daysBeforeMonth y 1 = 0"
  by (simp add: daysBeforeMonth_def)

lemma daysBeforeMonth_12:
  "daysBeforeMonth y 12 + 31 = (if isLeapYear y then 366 else 365)"
  by (simp add: daysBeforeMonth_def daysInMonth_def upto_rec1 [of 1 11] upto_rec1 [of 2 11] upto_rec1 [of 3 11]
     upto_rec1 [of 4 11] upto_rec1 [of 5 11] upto_rec1 [of 6 11] upto_rec1 [of 7 11] upto_rec1 [of 8 11]
     upto_rec1 [of 9 11] upto_rec1 [of 10 11])

lemma daysInMonth_bounds: "28 \<le> daysInMonth y m \<and> daysInMonth y m \<le> 31"
  by (simp add: daysInMonth_def)

lemma addDay_time: "hour (addDay dt) = hour dt \<and> minute (addDay dt) = minute dt"
  by (simp add: addDay_def setDate_def Let_def)

lemma removeDay_time: "hour (removeDay dt) = hour dt \<and> minute (removeDay dt) = minute dt"
  by (simp add: removeDay_def setDate_def Let_def)

lemma isValidDate_conv:
  "isValidDate dt \<longleftrightarrow>
     0 \<le> year dt \<and> 1 \<le> month dt \<and> month dt \<le> 12 \<and> 1 \<le> day dt
     \<and> day dt \<le> daysInMonth (year dt) (month dt)
     \<and> 0 \<le> hour dt \<and> hour dt < 24 \<and> 0 \<le> minute dt \<and> minute dt < 60"
  unfolding isValidDate_def by auto

text \<open>
  A date has the shape of a calendar day when its month is in 1..12 and its day in 1..31.
  On such dates the day and the month never overflow; only the year can.
\<close>

lemma addDay_cases:
  assumes "1 \<le> month dt" "month dt \<le> 12" "1 \<le> day dt" "day dt \<le> 31"
  shows "addDay dt =
     (if day dt + 1 \<le> daysInMonth (year dt) (month dt) then dt\<lparr>day := day dt + 1\<rparr>
      else if month dt < 12 then dt\<lparr>month := month dt + 1, day := 1\<rparr>
      else dt\<lparr>year := int32 (year dt + 1), month := 1, day := 1\<rparr>)"
proof -
  have "int32 (day dt + 1) = day dt + 1" "int32 (month dt + 1) = month dt + 1"
    using assms by (simp_all add: int32_small)
  then show ?thesis
    by (simp add: addDay_def setDate_def Let_def)
qed

lemma removeDay_cases:
  assumes "1 \<le> month dt" "month dt \<le> 12" "1 \<le> day dt" "day dt \<le> 31"
  shows "removeDay dt =
     (if 1 < day dt then dt\<lparr>day := day dt - 1\<rparr>
      else if 1 < month dt
      then dt\<lparr>month := month dt - 1, day := daysInMonth (year dt) (month dt - 1)\<rparr>
      else dt\<lparr>year := int32 (year dt - 1), month := 12, day := 31\<rparr>)"
proof -
  have "int32 (day dt - 1) = day dt - 1" "int32 (month dt - 1) = month dt - 1"
    using assms by (simp_all add: int32_small)
  moreover have "daysInMonth (int32 (year dt - 1)) 12 = 31"
    by (simp add: daysInMonth_def)
  ultimately show ?thesis
    by (simp add: removeDay_def setDate_def Let_def)
qed

lemma valid_shape:
  "isValidDate dt \<Longrightarrow> 1 \<le> month dt \<and> month dt \<le> 12 \<and> 1 \<le> day dt \<and> day dt \<le> 31"
  using daysInMonth_bounds [of "year dt" "month dt"] by (auto simp: isValidDate_conv)

lemma year_succ:
  "0 \<le> y \<Longrightarrow> y \<le> INT_MAX \<Longrightarrow> y \<noteq> INT_MAX \<Longrightarrow> int32 (y + 1) = y + 1"
  by (rule int32_id) (simp_all add: INT_MIN_def INT_MAX_def)

lemma year_pred: "0 \<le> y \<Longrightarrow> y \<le> INT_MAX \<Longrightarrow> int32 (y - 1) = y - 1"
  by (rule int32_id) (simp_all add: INT_MIN_def INT_MAX_def)

lemma addDay_valid_cases:
  assumes "isValidDate dt" and "year dt \<le> INT_MAX"
    and "\<not> (year dt = INT_MAX \<and> month dt = 12 \<and> day dt = 31)"
  shows "addDay dt =
     (if day dt + 1 \<le> daysInMonth (year dt) (month dt) then dt\<lparr>day := day dt + 1\<rparr>
      else if month dt < 12 then dt\<lparr>month := month dt + 1, day := 1\<rparr>
      else dt\<lparr>year := year dt + 1, month := 1, day := 1\<rparr>)"
proof (cases "day dt + 1 \<le> daysInMonth (year dt) (month dt) \<or> month dt < 12")
  case True
  then show ?thesis
    using valid_shape [OF assms(1)] by (auto simp: addDay_cases)
next
  case False
  then have "month dt = 12" "day dt = 31"
    using assms(1) by (auto simp: isValidDate_conv daysInMonth_def)
  then have "year dt \<noteq> INT_MAX" using assms(3) by simp
  then have "int32 (year dt + 1) = year dt + 1"
    using assms(1,2) by (simp add: year_succ isValidDate_conv)
  then show ?thesis
    using False valid_shape [OF assms(1)] by (simp add: addDay_cases)
qed

lemma removeDay_valid_cases:
  assumes "isValidDate dt" and "year dt \<le> INT_MAX"
  shows "removeDay dt =
     (if 1 < day dt then dt\<lparr>day := day dt - 1\<rparr>
      else if 1 < month dt
      then dt\<lparr>month := month dt - 1, day := daysInMonth (year dt) (month dt - 1)\<rparr>
      else dt\<lparr>year := year dt - 1, month := 12, day := 31\<rparr>)"
proof -
  have "int32 (year dt - 1) = year dt - 1"
    using assms by (simp add: year_pred isValidDate_conv)
  then show ?thesis
    using valid_shape [OF assms(1)] by (simp add: removeDay_cases)
qed

lemma isValidDate_addDay:
  assumes "isValidDate dt" and "year dt \<le> INT_MAX"
    and "\<not> (year dt = INT_MAX \<and> month dt = 12 \<and> day dt = 31)"
  shows "isValidDate (addDay dt)"
  using assms(1) daysInMonth_bounds [of "year dt" "month dt + 1"]
    daysInMonth_bounds [of "year dt + 1" 1]
  by (auto simp: isValidDate_conv addDay_valid_cases [OF assms])

lemma dayNumber_addDay:
  assumes v: "isValidDate dt" and b: "year dt \<le> INT_MAX"
    and n: "\<not> (year dt = INT_MAX \<and> month dt = 12 \<and> day dt = 31)"
  shows "dayNumber (addDay dt) = dayNumber dt + 1"
proof -
  note c = addDay_valid_cases [OF v b n]
  from v have r: "0 \<le> year dt" "1 \<le> month dt" "month dt \<le> 12" "1 \<le> day dt"
    "day dt \<le> daysInMonth (year dt) (month dt)"
    by (auto simp: isValidDate_conv)
  show ?thesis
  proof (cases "day dt + 1 \<le> daysInMonth (year dt) (month dt)")
    case True
    then show ?thesis by (simp add: c dayNumber_def)
  next
    case last: False
    with r have d: "day dt = daysInMonth (year dt) (month dt)" by simp
    show ?thesis
    proof (cases "month dt < 12")
      case True
      with last r d show ?thesis
        by (simp add: c dayNumber_def daysBeforeMonth_next)
    next
      case False
      with r have m: "month dt = 12" by simp
      have y: "nat (year dt + 1) = Suc (nat (year dt))" using r by simp
      have d31: "day dt = 31" using d m by (simp add: daysInMonth_def)
      show ?thesis
        using last m d31 daysBeforeMonth_12 [of "year dt"] r
        by (simp add: c dayNumber_def y daysBeforeMonth_1)
    qed
  qed
qed

lemma removeDay_addDay:
  assumes v: "isValidDate dt" and b: "year dt \<le> INT_MAX"
    and n: "\<not> (year dt = INT_MAX \<and> month dt = 12 \<and> day dt = 31)"
  shows "removeDay (addDay dt) = dt"
proof -
  note c = addDay_valid_cases [OF v b n]
  have va: "isValidDate (addDay dt)" using v b n by (rule isValidDate_addDay)
  from v have r: "0 \<le> year dt" "1 \<le> month dt" "month dt \<le> 12" "1 \<le> day dt"
    "day dt \<le> daysInMonth (year dt) (month dt)"
    by (auto simp: isValidDate_conv)
  have dec: "daysInMonth (year dt) 12 = 31" by (simp add: daysInMonth_def)
  have ya: "year (addDay dt) \<le> INT_MAX"
    using b n r dec by (auto simp: c)
  note rc = removeDay_valid_cases [OF va ya]
  show ?thesis
  proof (cases "day dt + 1 \<le> daysInMonth (year dt) (month dt)")
    case True
    with r show ?thesis unfolding rc by (simp add: c)
  next
    case last: False
    with r have d: "day dt = daysInMonth (year dt) (month dt)" by simp
    show ?thesis
    proof (cases "month dt < 12")
      case True
      with last r d show ?thesis unfolding rc by (simp add: c)
    next
      case False
      with r have m: "month dt = 12" by simp
      have d31: "day dt = 31" using d m by (simp add: daysInMonth_def)
      from last r m d31 show ?thesis unfolding rc by (simp add: c)
    qed
  qed
qed

lemma addDay_removeDay:
  assumes v: "isValidDate dt" and b: "year dt \<le> INT_MAX"
  shows "addDay (removeDay dt) = dt"
proof -
  note rc = removeDay_valid_cases [OF v b]
  from v have r: "0 \<le> year dt" "1 \<le> month dt" "month dt \<le> 12" "1 \<le> day dt"
    "day dt \<le> daysInMonth (year dt) (month dt)"
    by (auto simp: isValidDate_conv)
  have sh: "1 \<le> month (removeDay dt)" "month (removeDay dt) \<le> 12"
    "1 \<le> day (removeDay dt)" "day (removeDay dt) \<le> 31"
    using r valid_shape [OF v] daysInMonth_bounds [of "year dt" "month dt - 1"]
    by (auto simp: rc)
  note ac = addDay_cases [OF sh]
  show ?thesis
  proof (cases "1 < day dt")
    case True
    with r show ?thesis unfolding ac by (simp add: rc)
  next
    case first: False
    with r have d: "day dt = 1" by simp
    show ?thesis
    proof (cases "1 < month dt")
      case True
      with first r d show ?thesis unfolding ac by (simp add: rc)
    next
      case False
      with r have m: "month dt = 1" by simp
      have "daysInMonth (year dt - 1) 12 = 31" by (simp add: daysInMonth_def)
      moreover have "int32 (year dt - 1 + 1) = year dt"
        using r b by (simp add: int32_id INT_MIN_def)
      ultimately show ?thesis
        using first r d m unfolding ac by (simp add: rc)
    qed
  qed
qed

lemma isValidDate_removeDay:
  assumes "isValidDate dt" and "year dt \<le> INT_MAX"
    and "\<not> (year dt = 0 \<and> month dt = 1 \<and> day dt = 1)"
  shows "isValidDate (removeDay dt)"
  using assms(1,3) daysInMonth_bounds [of "year dt" "month dt - 1"]
  by (auto simp: isValidDate_conv removeDay_valid_cases [OF assms(1,2)] daysInMonth_def)

text \<open>
  Claim C7, as stated, fails. December 31 of the year \<open>INT_MAX\<close> is a valid date, and
  there the year that \<open>addDay\<close> increments leaves the range of \<open>int\<close>: the result is
  January 1 of the year \<open>INT_MIN\<close>, which is not one calendar day later and not a valid
  date.
\<close>

theorem addDay_year_overflow:
  "isValidDate (mkDate 2147483647 12 31 0 0)
   \<and> addDay (mkDate 2147483647 12 31 0 0) = mkDate (- 2147483648) 1 1 0 0
   \<and> \<not> isValidDate (addDay (mkDate 2147483647 12 31 0 0))
   \<and> year (addDay (mkDate 2147483647 12 31 0 0)) \<noteq> year (mkDate 2147483647 12 31 0 0) + 1"
proof -
  have v: "isValidDate (mkDate 2147483647 12 31 0 0)"
    by (simp add: isValidDate_conv mkDate_def daysInMonth_def)
  have a: "addDay (mkDate 2147483647 12 31 0 0) = mkDate (- 2147483648) 1 1 0 0"
    by (simp add: addDay_def setDate_def mkDate_def daysInMonth_def Let_def int32_def)
  have n: "\<not> isValidDate (mkDate (- 2147483648) 1 1 0 0)"
    by (simp add: isValidDate_conv mkDate_def)
  have y: "year (mkDate (- 2147483648) 1 1 0 0) \<noteq> year (mkDate 2147483647 12 31 0 0) + 1"
    by (simp add: mkDate_def)
  from v n y show ?thesis unfolding a by simp
qed

text \<open>
  Claim C7, amended. On every valid date except December 31 of the year \<open>INT_MAX\<close>,
  \<open>addDay\<close> moves the year, month and day forward by exactly one calendar day, and on
  every valid date \<open>removeDay\<close> moves them back by exactly one: within the month the
  day changes by one, at the end of a month (its length taken from \<open>daysInMonth\<close>) the
  date rolls to the first of the next month, from December 31 to January 1 of the next
  year, and symmetrically backwards. The two operations undo each other, the day number
  changes by one, and hour and minute stay as they are. The dates are those of the
  program: their year is an \<open>int\<close>.
\<close>

theorem addDay_removeDay_one_day:
  assumes "isValidDate dt" and "year dt \<le> INT_MAX"
  shows "(\<not> (year dt = INT_MAX \<and> month dt = 12 \<and> day dt = 31) \<longrightarrow>
            isValidDate (addDay dt) \<and> dayNumber (addDay dt) = dayNumber dt + 1
            \<and> removeDay (addDay dt) = dt
            \<and> addDay dt =
                (if day dt + 1 \<le> daysInMonth (year dt) (month dt) then dt\<lparr>day := day dt + 1\<rparr>
                 else if month dt < 12 then dt\<lparr>month := month dt + 1, day := 1\<rparr>
                 else dt\<lparr>year := year dt + 1, month := 1, day := 1\<rparr>))
     \<and> addDay (removeDay dt) = dt
     \<and> (\<not> (year dt = 0 \<and> month dt = 1 \<and> day dt = 1) \<longrightarrow>
          isValidDate (removeDay dt) \<and> dayNumber (removeDay dt) = dayNumber dt - 1)
     \<and> removeDay dt =
         (if 1 < day dt then dt\<lparr>day := day dt - 1\<rparr>
          else if 1 < month dt
          then dt\<lparr>month := month dt - 1, day := daysInMonth (year dt) (month dt - 1)\<rparr>
          else dt\<lparr>year := year dt - 1, month := 12, day := 31\<rparr>)
     \<and> hour (addDay dt) = hour dt \<and> minute (addDay dt) = minute dt
     \<and> hour (removeDay dt) = hour dt \<and> minute (removeDay dt) = minute dt"
proof -
  have fwd: "\<not> (year dt = INT_MAX \<and> month dt = 12 \<and> day dt = 31) \<longrightarrow>
            isValidDate (addDay dt) \<and> dayNumber (addDay dt) = dayNumber dt + 1
            \<and> removeDay (addDay dt) = dt
            \<and> addDay dt =
                (if day dt + 1 \<le> daysInMonth (year dt) (month dt) then dt\<lparr>day := day dt + 1\<rparr>
                 else if month dt < 12 then dt\<lparr>month := month dt + 1, day := 1\<rparr>
                 else dt\<lparr>year := year dt + 1, month := 1, day := 1\<rparr>)"
  proof
    assume n: "\<not> (year dt = INT_MAX \<and> month dt = 12 \<and> day dt = 31)"
    from isValidDate_addDay [OF assms n] dayNumber_addDay [OF assms n]
      removeDay_addDay [OF assms n] addDay_valid_cases [OF assms n]
    show "isValidDate (addDay dt) \<and> dayNumber (addDay dt) = dayNumber dt + 1
            \<and> removeDay (addDay dt) = dt
            \<and> addDay dt =
                (if day dt + 1 \<le> daysInMonth (year dt) (month dt) then dt\<lparr>day := day dt + 1\<rparr>
                 else if month dt < 12 then dt\<lparr>month := month dt + 1, day := 1\<rparr>
                 else dt\<lparr>year := year dt + 1, month := 1, day := 1\<rparr>)"
      by (intro conjI)
  qed
  have prev: "\<not> (year dt = 0 \<and> month dt = 1 \<and> day dt = 1) \<longrightarrow>
          isValidDate (removeDay dt) \<and> dayNumber (removeDay dt) = dayNumber dt - 1"
  proof
    assume z: "\<not> (year dt = 0 \<and> month dt = 1 \<and> day dt = 1)"
    have v: "isValidDate (removeDay dt)"
      using assms z by (rule isValidDate_removeDay)
    have y: "year (removeDay dt) \<le> INT_MAX"
      using assms by (auto simp: removeDay_valid_cases [OF assms] isValidDate_conv)
    have l: "\<not> (year (removeDay dt) = INT_MAX \<and> month (removeDay dt) = 12 \<and> day (removeDay dt) = 31)"
      using assms(2) valid_shape [OF assms(1)]
      by (auto simp: removeDay_valid_cases [OF assms] split: if_splits)
    have "dayNumber (addDay (removeDay dt)) = dayNumber (removeDay dt) + 1"
      using v y l by (rule dayNumber_addDay)
    then show "isValidDate (removeDay dt) \<and> dayNumber (removeDay dt) = dayNumber dt - 1"
      using v by (simp add: addDay_removeDay [OF assms])
  qed
  from fwd prev addDay_removeDay [OF assms] removeDay_valid_cases [OF assms]
    addDay_time [of dt] removeDay_time [of dt]
  show ?thesis by (intro conjI) (elim conjE | assumption)+
qed

theorem addDay_removeDay_one_day_witness:
  "isValidDate (mkDate 2024 12 31 9 30) \<and> year (mkDate 2024 12 31 9 30) \<le> INT_MAX
   \<and> addDay (mkDate 2024 12 31 9 30) = mkDate 2025 1 1 9 30
   \<and> dayNumber (addDay (mkDate 2024 12 31 9 30)) = dayNumber (mkDate 2024 12 31 9 30) + 1
   \<and> removeDay (addDay (mkDate 2024 12 31 9 30)) = mkDate 2024 12 31 9 30
   \<and> isValidDate (removeDay (mkDate 2024 12 31 9 30))
   \<and> dayNumber (removeDay (mkDate 2024 12 31 9 30)) = dayNumber (mkDate 2024 12 31 9 30) - 1"
proof -
  have v: "isValidDate (mkDate 2024 12 31 9 30)"
    by (simp add: isValidDate_conv mkDate_def daysInMonth_def)
  have b: "year (mkDate 2024 12 31 9 30) \<le> INT_MAX"
    by (simp add: mkDate_def INT_MAX_def)
  have a: "addDay (mkDate 2024 12 31 9 30) = mkDate 2025 1 1 9 30"
    by (simp add: addDay_def setDate_def mkDate_def daysInMonth_def Let_def int32_def)
  have l: "\<not> (year (mkDate 2024 12 31 9 30) = INT_MAX \<and> month (mkDate 2024 12 31 9 30) = 12
              \<and> day (mkDate 2024 12 31 9 30) = 31)"
    by (simp add: mkDate_def INT_MAX_def)
  have z: "\<not> (year (mkDate 2024 12 31 9 30) = 0 \<and> month (mkDate 2024 12 31 9 30) = 1
              \<and> day (mkDate 2024 12 31 9 30) = 1)"
    by (simp add: mkDate_def)
  note t = addDay_removeDay_one_day [OF v b]
  note f = t [THEN conjunct1, THEN mp, OF l]
  note r = t [THEN conjunct2, THEN conjunct2, THEN conjunct1, THEN mp, OF z]
  from v b a f [THEN conjunct2, THEN conjunct1] f [THEN conjunct2, THEN conjunct2, THEN conjunct1] r
  show ?thesis by (intro conjI) (elim conjE | assumption)+
qed

subsection \<open>Reachable states are configured all or nothing\<close>

lemma setWorkdayStartAndStop_configured:
  "workday_start (setWorkdayStartAndStop s a b) = Some a' \<Longrightarrow>
   workday_stop (setWorkdayStartAndStop s a b) = Some b' \<Longrightarrow>
   configured (setWorkdayStartAndStop s a b) a' b'"
  by (auto simp: setWorkdayStartAndStop_def updateWorkingDuration_def configured_def mkDate_fields
      split: if_splits prod.splits)

lemma reachable_configured:
  "reachable s \<Longrightarrow> workday_start s = Some a \<Longrightarrow> workday_stop s = Some b \<Longrightarrow> configured s a b"
proof (induction arbitrary: a b rule: reachable.induct)
  case reachable_new
  then show ?case by (simp add: newWorkdayCalendar_def)
next
  case (reachable_setWorkdayStartAndStop s start stop)
  then show ?case by (simp add: setWorkdayStartAndStop_configured)
next
  case (reachable_setHoliday s dt)
  then show ?case by (simp add: setHoliday_def configured_def)
next
  case (reachable_setRecurringHoliday s dt)
  then show ?case by (simp add: setRecurringHoliday_def configured_def)
qed

lemma c_div_mod_60: "0 \<le> h \<Longrightarrow> 0 \<le> m \<Longrightarrow> m < 60 \<Longrightarrow> c_div (h * 60 + m) 60 = h \<and> c_mod (h * 60 + m) 60 = m"
  by (simp add: c_div_nonneg c_mod_nonneg)

lemma valid_time_minutes:
  assumes "isValidDate dt"
  shows "convertToMinutes (getTime dt) = hour dt * 60 + minute dt"
    and "0 \<le> convertToMinutes (getTime dt)" and "convertToMinutes (getTime dt) < 1440"
proof -
  have t: "0 \<le> hour dt" "hour dt < 24" "0 \<le> minute dt" "minute dt < 60"
    using assms by (auto simp: isValidDate_conv)
  then have "int32 (hour dt * 60 + minute dt) = hour dt * 60 + minute dt"
    by (intro int32_small) simp_all
  then show e: "convertToMinutes (getTime dt) = hour dt * 60 + minute dt"
    by (simp add: convertToMinutes_def getTime_def MINUTES_IN_HOUR_def)
  show "0 \<le> convertToMinutes (getTime dt)" "convertToMinutes (getTime dt) < 1440"
    using t unfolding e by simp_all
qed

lemma convertToMinutes_subtractTime:
  "convertToMinutes (subtractTime x y) =
     (if int32 (convertToMinutes x - convertToMinutes y) < 0
      then int32 (convertToMinutes x - convertToMinutes y) + 1440
      else int32 (convertToMinutes x - convertToMinutes y))"
proof -
  let ?d = "int32 (convertToMinutes x - convertToMinutes y)"
  let ?e = "if ?d < 0 then ?d + 1440 else ?d"
  have "INT_MIN \<le> ?e" "?e \<le> INT_MAX"
    using int32_range [of "convertToMinutes x - convertToMinutes y"]
    by (auto simp: INT_MIN_def INT_MAX_def)
  then have "int32 ?e = ?e" by (rule int32_id)
  moreover have "subtractTime x y = (c_div ?e 60, c_mod ?e 60)"
    by (simp add: subtractTime_def Let_def MINUTES_IN_DAY_def MINUTES_IN_HOUR_def)
  ultimately show ?thesis
    by (simp only: convertToMinutes_pair)
qed

lemma configured_duration:
  assumes "configured s a b"
  shows "\<exists>dur. workday_duration s = Some dur \<and>
     convertToMinutes (getTime dur) =
       (if convertToMinutes (getTime b) - convertToMinutes (getTime a) < 0
        then convertToMinutes (getTime b) - convertToMinutes (getTime a) + 1440
        else convertToMinutes (getTime b) - convertToMinutes (getTime a))"
proof -
  have v: "isValidDate a" "isValidDate b"
    using assms by (simp_all add: configured_def)
  have "int32 (convertToMinutes (getTime b) - convertToMinutes (getTime a))
        = convertToMinutes (getTime b) - convertToMinutes (getTime a)"
    using valid_time_minutes(2,3) [OF v(1)] valid_time_minutes(2,3) [OF v(2)]
    by (intro int32_small) simp_all
  then show ?thesis
    using assms convertToMinutes_subtractTime [of "getTime b" "getTime a"]
    by (auto simp: configured_def getTime_def mkDate_def)
qed

lemma moveToFirstWorkday_no_holiday:
  "isHoliday cal d = Inr False \<Longrightarrow> moveToFirstWorkday cal a b decr d = Some (Inr d)"
  by (subst moveToFirstWorkday.simps) simp

lemma addRemainingMinutes_zero:
  assumes "isValidDate d"
    and "convertToMinutes (getTime a) \<le> convertToMinutes (getTime d)"
    and "convertToMinutes (getTime d) < convertToMinutes (getTime b)"
  shows "addRemainingMinutes cal a b 0 d = Some (Inr d)"
proof -
  have t: "0 \<le> hour d" "0 \<le> minute d" "minute d < 60"
    using assms(1) by (auto simp: isValidDate_conv)
  note m = valid_time_minutes [OF assms(1)]
  have w: "int32 (convertToMinutes (getTime d)) = convertToMinutes (getTime d)"
    using m(2,3) by (simp add: int32_small)
  have w': "int32 (hour d * 60 + minute d) = hour d * 60 + minute d"
    using w unfolding m(1) .
  have "addMinutes (convertToMinutes (getTime d)) 0 = (hour d, minute d)"
    using c_div_mod_60 [OF t] by (simp add: addMinutes_wrapped w' m(1))
  then show ?thesis
    using assms(2,3) w
    by (simp add: addRemainingMinutes_def Let_def bnd_def ret_def setDate_def)
qed

subsection \<open>The increments of the repository's first two tests\<close>

text \<open>
  Claim C1. With the workday set to start 08:00 and stop 16:00 (a duration of 8 hours)
  and no holiday registered, \<open>getWorkdayIncrement(2004-01-01 15:07, 0.25)\<close> returns
  2004-01-02 09:07 and \<open>getWorkdayIncrement(2004-01-01 16:00, 0.5)\<close> returns 2004-01-02
  12:00. A start exactly on the stop time counts as past the stop: it rolls to the start
  of the next workday before the remaining minutes are added (with no minutes to add,
  16:00 becomes 08:00 of the next day, while 15:59 stays where it is).
\<close>

theorem workday_8_to_16_increments:
  "workday_duration workday_8_to_16 = Some (mkDate 0 0 0 8 0)
   \<and> holidays (calendar workday_8_to_16) = {} \<and> recurring_holidays (calendar workday_8_to_16) = {}
   \<and> getWorkdayIncrement workday_8_to_16 (mkDate 2004 1 1 15 7) (1 / 4) = Some (Inr (mkDate 2004 1 2 9 7))
   \<and> getWorkdayIncrement workday_8_to_16 (mkDate 2004 1 1 16 0) (1 / 2) = Some (Inr (mkDate 2004 1 2 12 0))
   \<and> getWorkdayIncrement workday_8_to_16 (mkDate 2004 1 1 16 0) 0 = Some (Inr (mkDate 2004 1 2 8 0))
   \<and> getWorkdayIncrement workday_8_to_16 (mkDate 2004 1 1 15 59) 0 = Some (Inr (mkDate 2004 1 1 15 59))"
  by code_simp

subsection \<open>A zero increment inside working hours\<close>

text \<open>
  Claim C2. When start and stop are configured, and the date is valid, is not a holiday
  and has its clock time inside the work window (start time \<le> time < stop time),
  \<open>getWorkdayIncrement(d, 0)\<close> returns \<open>d\<close> unchanged.
\<close>

theorem getWorkdayIncrement_zero:
  assumes "reachable s"
    and "workday_start s = Some wstart" and "workday_stop s = Some wstop"
    and "isValidDate d"
    and "isHoliday (calendar s) d = Inr False"
    and "convertToMinutes (getTime wstart) \<le> convertToMinutes (getTime d)"
    and "convertToMinutes (getTime d) < convertToMinutes (getTime wstop)"
  shows "getWorkdayIncrement s d 0 = Some (Inr d)"
proof -
  have c: "configured s wstart wstop"
    using assms(1-3) by (rule reachable_configured)
  then obtain dur where dur: "workday_duration s = Some dur"
    and w: "convertToMinutes (getTime dur) =
       (if convertToMinutes (getTime wstop) - convertToMinutes (getTime wstart) < 0
        then convertToMinutes (getTime wstop) - convertToMinutes (getTime wstart) + 1440
        else convertToMinutes (getTime wstop) - convertToMinutes (getTime wstart))"
    using configured_duration by blast
  have wpos: "0 < convertToMinutes (getTime dur)"
    using w assms(6,7) by simp
  have z: "c_div 0 (convertToMinutes (getTime dur)) = 0" "c_mod 0 (convertToMinutes (getTime dur)) = 0"
    "c_div 0 WORKWEEK_DURATION = 0" "c_mod 0 WORKWEEK_DURATION = 0" "int32 0 = 0"
    by (simp_all add: c_div_def c_mod_def int32_def)
  have p: "truncate_to_long (float_mult 0 (long_to_float (convertToMinutes (getTime dur)))) = 0"
    by (simp add: float_mult_def float_round_def truncate_to_long_def)
  have l: "\<not> ((0::int) < LONG_MIN \<or> LONG_MAX < 0)" "(0::int) \<noteq> LONG_MIN"
    by (simp_all add: LONG_MIN_def LONG_MAX_def)
  show ?thesis
    using assms(2-5) dur wpos z l
      addRemainingMinutes_zero [OF assms(4,6,7), of "calendar s"]
    by (simp add: getWorkdayIncrement_def Let_def p
        moveToFirstWorkday_no_holiday bnd_def ret_def)
qed

theorem getWorkdayIncrement_zero_witness:
  "reachable workday_8_to_16
   \<and> isValidDate (mkDate 2024 3 1 9 0)
   \<and> isHoliday (calendar workday_8_to_16) (mkDate 2024 3 1 9 0) = Inr False
   \<and> getWorkdayIncrement workday_8_to_16 (mkDate 2024 3 1 9 0) 0 = Some (Inr (mkDate 2024 3 1 9 0))"
proof -
  have r: "reachable workday_8_to_16"
    unfolding workday_8_to_16_def by (intro reachable.intros)
  have a: "workday_start workday_8_to_16 = Some (mkDate 2004 1 1 8 0)"
    and b: "workday_stop workday_8_to_16 = Some (mkDate 2004 1 1 16 0)"
    by code_simp+
  have v: "isValidDate (mkDate 2024 3 1 9 0)" by code_simp
  have h: "isHoliday (calendar workday_8_to_16) (mkDate 2024 3 1 9 0) = Inr False" by code_simp
  have lo: "convertToMinutes (getTime (mkDate 2004 1 1 8 0)) \<le> convertToMinutes (getTime (mkDate 2024 3 1 9 0))"
    by code_simp
  have hi: "convertToMinutes (getTime (mkDate 2024 3 1 9 0)) < convertToMinutes (getTime (mkDate 2004 1 1 16 0))"
    by code_simp
  from getWorkdayIncrement_zero [OF r a b v h lo hi] r v h show ?thesis by simp
qed

subsection \<open>What getWorkdayIncrement returns when it cannot compute\<close>

lemma getWorkdayIncrement_sentinel:
  "\<not> isValidDate d \<or> workday_start s = None \<or> workday_stop s = None \<or> workday_duration s = None \<Longrightarrow>
   getWorkdayIncrement s d inc = Some (Inr generateInvalidDate)
   \<and> generateInvalidDate = \<lparr>year = -1, month = -1, day = -1, hour = -1, minute = -1\<rparr>"
  by (auto simp: getWorkdayIncrement_def ret_def generateInvalidDate_def mkDate_def split: option.splits)

text \<open>
  Claim C3. \<open>getWorkdayIncrement\<close> is meant to return a date on every input and in
  every state, the date of five times -1 when the start date is invalid or the
  configuration is absent (the lemma above). It does not on a workday of length zero:
  with start and stop both at 08:00, two valid dates that \<open>setWorkdayStartAndStop\<close>
  accepts, the duration is 0 minutes and the division by it is reached. That division
  throws no C++ exception, so the \<open>catch\<close> does not turn it into the invalid date.
\<close>

theorem getWorkdayIncrement_zero_length_workday:
  "isValidDate (mkDate 2004 1 1 8 0) \<and> isValidDate (mkDate 2004 1 1 9 0)
   \<and> workday_start (setWorkdayStartAndStop newWorkdayCalendar (mkDate 2004 1 1 8 0) (mkDate 2004 1 1 8 0))
       = Some (mkDate 2004 1 1 8 0)
   \<and> workday_stop (setWorkdayStartAndStop newWorkdayCalendar (mkDate 2004 1 1 8 0) (mkDate 2004 1 1 8 0))
       = Some (mkDate 2004 1 1 8 0)
   \<and> getWorkdayIncrement
       (setWorkdayStartAndStop newWorkdayCalendar (mkDate 2004 1 1 8 0) (mkDate 2004 1 1 8 0))
       (mkDate 2004 1 1 9 0) 1 = Some (Inl DivByZero)"
  by code_simp

subsection \<open>A calendar of holidays only\<close>

lemma foldl_setRecurringHoliday:
  "recurring_holidays (calendar (foldl setRecurringHoliday s ds)) =
     recurring_holidays (calendar s) \<union> {(month d, day d) | d. d \<in> set ds \<and> isValidDate d}
   \<and> workday_start (foldl setRecurringHoliday s ds) = workday_start s
   \<and> workday_stop (foldl setRecurringHoliday s ds) = workday_stop s
   \<and> workday_duration (foldl setRecurringHoliday s ds) = workday_duration s"
proof (induction ds arbitrary: s)
  case Nil
  then show ?case by simp
next
  case (Cons d ds)
  show ?case
    using Cons.IH [of "setRecurringHoliday s d"]
    by (auto simp: setRecurringHoliday_def cal_setRecurringHoliday_def)
qed

lemma daysInMonth_le_2024: "daysInMonth y m \<le> daysInMonth 2024 m"
  by (simp add: daysInMonth_def leap_examples)

lemma allDays2024_mem:
  assumes "1 \<le> month x" "month x \<le> 12" "1 \<le> day x" "day x \<le> daysInMonth (year x) (month x)"
  shows "mkDate 2024 (month x) (day x) 0 0 \<in> set allDays2024
         \<and> isValidDate (mkDate 2024 (month x) (day x) 0 0)"
proof -
  have r: "1 \<le> month x" "month x \<le> 12" "1 \<le> day x" "day x \<le> daysInMonth 2024 (month x)"
    using assms daysInMonth_le_2024 [of "year x" "month x"] by auto
  then have "mkDate 2024 (month x) (day x) 0 0 \<in> set allDays2024"
    unfolding allDays2024_def
    by (auto intro!: bexI [of _ "month x"] image_eqI [of _ _ "day x"])
  moreover have "isValidDate (mkDate 2024 (month x) (day x) 0 0)"
    using r by (simp add: isValidDate_conv mkDate_def)
  ultimately show ?thesis by simp
qed

text \<open>
  Every date whose month and day exist in its year is a holiday of this calendar,
  whatever the year, also a negative one.
\<close>

lemma everyDayRecurring_holiday:
  assumes "1 \<le> month x" "month x \<le> 12" "1 \<le> day x" "day x \<le> daysInMonth (year x) (month x)"
  shows "isHoliday (calendar everyDayRecurring) x = Inr True"
proof -
  have "(month (mkDate 2024 (month x) (day x) 0 0), day (mkDate 2024 (month x) (day x) 0 0))
          \<in> recurring_holidays (calendar everyDayRecurring)"
    unfolding everyDayRecurring_def using allDays2024_mem [OF assms]
    by (subst foldl_setRecurringHoliday [THEN conjunct1]) blast
  then have m: "(month x, day x) \<in> recurring_holidays (calendar everyDayRecurring)"
    by (simp add: mkDate_def)
  obtain w where "dayOfWeek x = Inr w"
    using assms dayOfWeek_defined [of x] by auto
  with m show ?thesis by (simp add: isHoliday_def)
qed

text \<open>
  \<open>addDay\<close> keeps the month and the day inside the year, also when \<open>newYear++\<close> wraps
  around: the loop below never leaves the dates that are holidays.
\<close>

lemma addDay_shape:
  assumes "1 \<le> month x" "month x \<le> 12" "1 \<le> day x" "day x \<le> daysInMonth (year x) (month x)"
  shows "1 \<le> month (addDay x) \<and> month (addDay x) \<le> 12 \<and> 1 \<le> day (addDay x)
         \<and> day (addDay x) \<le> daysInMonth (year (addDay x)) (month (addDay x))"
proof -
  have d: "day x \<le> 31"
    using assms(4) daysInMonth_bounds [of "year x" "month x"] by simp
  have b: "1 \<le> daysInMonth y m" for y m
    using daysInMonth_bounds [of y m] by simp
  show ?thesis
    unfolding addDay_cases [OF assms(1) assms(2) assms(3) d]
    using assms b by auto
qed

lemma moveToFirstWorkday_never_returns:
  assumes "moveToFirstWorkday cal wstart wstop decr cur = Some y"
  shows "\<not> ((\<forall>x. 1 \<le> month x \<and> month x \<le> 12 \<and> 1 \<le> day x
                 \<and> day x \<le> daysInMonth (year x) (month x) \<longrightarrow> isHoliday cal x = Inr True)
            \<and> \<not> decr
            \<and> 1 \<le> month cur \<and> month cur \<le> 12 \<and> 1 \<le> day cur
            \<and> day cur \<le> daysInMonth (year cur) (month cur))"
proof (rule moveToFirstWorkday.raw_induct [where P = "\<lambda>cal wstart wstop decr cur y.
    \<not> ((\<forall>x. 1 \<le> month x \<and> month x \<le> 12 \<and> 1 \<le> day x
                 \<and> day x \<le> daysInMonth (year x) (month x) \<longrightarrow> isHoliday cal x = Inr True)
            \<and> \<not> decr
            \<and> 1 \<le> month cur \<and> month cur \<le> 12 \<and> 1 \<le> day cur
            \<and> day cur \<le> daysInMonth (year cur) (month cur))", OF _ assms])
  fix loop :: "GregorianCalendar \<Rightarrow> Date \<Rightarrow> Date \<Rightarrow> bool \<Rightarrow> Date \<Rightarrow> Date comp"
    and cal wstart wstop decr cur y
  assume IH: "\<And>cal wstart wstop decr cur y. loop cal wstart wstop decr cur = Some y \<Longrightarrow>
      \<not> ((\<forall>x. 1 \<le> month x \<and> month x \<le> 12 \<and> 1 \<le> day x
                 \<and> day x \<le> daysInMonth (year x) (month x) \<longrightarrow> isHoliday cal x = Inr True)
            \<and> \<not> decr
            \<and> 1 \<le> month cur \<and> month cur \<le> 12 \<and> 1 \<le> day cur
            \<and> day cur \<le> daysInMonth (year cur) (month cur))"
    and body: "(case isHoliday cal cur of
        Inl e \<Rightarrow> Some (Inl e)
      | Inr h \<Rightarrow>
          if h
          then (if decr
                then (let c = removeDay cur
                      in loop cal wstart wstop decr
                           (setDate c (year c) (month c) (day c) (hour wstop) (minute wstop)))
                else (let c = addDay cur
                      in loop cal wstart wstop decr
                           (setDate c (year c) (month c) (day c) (hour wstart) (minute wstart))))
          else Some (Inr cur)) = Some y"
  show "\<not> ((\<forall>x. 1 \<le> month x \<and> month x \<le> 12 \<and> 1 \<le> day x
                 \<and> day x \<le> daysInMonth (year x) (month x) \<longrightarrow> isHoliday cal x = Inr True)
            \<and> \<not> decr
            \<and> 1 \<le> month cur \<and> month cur \<le> 12 \<and> 1 \<le> day cur
            \<and> day cur \<le> daysInMonth (year cur) (month cur))"
  proof
    assume H: "(\<forall>x. 1 \<le> month x \<and> month x \<le> 12 \<and> 1 \<le> day x
                 \<and> day x \<le> daysInMonth (year x) (month x) \<longrightarrow> isHoliday cal x = Inr True)
            \<and> \<not> decr
            \<and> 1 \<le> month cur \<and> month cur \<le> 12 \<and> 1 \<le> day cur
            \<and> day cur \<le> daysInMonth (year cur) (month cur)"
    let ?c = "addDay cur"
    let ?n = "setDate ?c (year ?c) (month ?c) (day ?c) (hour wstart) (minute wstart)"
    from H have hol: "isHoliday cal cur = Inr True" by blast
    from H have s: "1 \<le> month cur" "month cur \<le> 12" "1 \<le> day cur"
      "day cur \<le> daysInMonth (year cur) (month cur)" by simp_all
    have v: "1 \<le> month ?n \<and> month ?n \<le> 12 \<and> 1 \<le> day ?n
         \<and> day ?n \<le> daysInMonth (year ?n) (month ?n)"
      using addDay_shape [OF s] by (simp add: setDate_def)
    from body hol H have "loop cal wstart wstop decr ?n = Some y"
      by (simp add: Let_def)
    from IH [OF this] H v show False by blast
  qed
qed

lemma everyDayRecurring_fields:
  "workday_start everyDayRecurring = Some (mkDate 2004 1 1 8 0)
   \<and> workday_stop everyDayRecurring = Some (mkDate 2004 1 1 16 0)
   \<and> workday_duration everyDayRecurring = Some (mkDate 0 0 0 8 0)"
proof -
  have "workday_start workday_8_to_16 = Some (mkDate 2004 1 1 8 0)
   \<and> workday_stop workday_8_to_16 = Some (mkDate 2004 1 1 16 0)
   \<and> workday_duration workday_8_to_16 = Some (mkDate 0 0 0 8 0)"
    by code_simp
  then show ?thesis
    unfolding everyDayRecurring_def by (simp add: foldl_setRecurringHoliday)
qed

text \<open>
  Claim C9. The documentation of \<open>getWorkdayIncrement\<close> promises a result for every
  call: the incremented date, or the invalid date if anything goes wrong. The claim says
  that the loops moving day by day over holidays end at the first workday. Take the
  workday 08:00 to 16:00 and declare each of the 366 days of 2024 a recurring holiday,
  with \<open>setRecurringHoliday\<close>, which accepts them all. The start date 2024-05-20 09:00 is
  valid, the workday is configured and lasts 480 minutes, the increment is one workday:
  the first loop, \<open>while (calendar_->isHoliday(current))\<close>, finds a holiday at every
  date it reaches and never ends, so the call returns nothing, neither a date nor the
  invalid date.
\<close>

theorem getWorkdayIncrement_never_returns:
  "isValidDate (mkDate 2024 5 20 9 0)
   \<and> workday_start everyDayRecurring = Some (mkDate 2004 1 1 8 0)
   \<and> workday_stop everyDayRecurring = Some (mkDate 2004 1 1 16 0)
   \<and> getWorkdayIncrement everyDayRecurring (mkDate 2024 5 20 9 0) 1 = None"
proof -
  have v: "isValidDate (mkDate 2024 5 20 9 0)"
    by (simp add: isValidDate_conv mkDate_def daysInMonth_def)
  have s: "1 \<le> month (mkDate 2024 5 20 9 0) \<and> month (mkDate 2024 5 20 9 0) \<le> 12
      \<and> 1 \<le> day (mkDate 2024 5 20 9 0)
      \<and> day (mkDate 2024 5 20 9 0)
          \<le> daysInMonth (year (mkDate 2024 5 20 9 0)) (month (mkDate 2024 5 20 9 0))"
    by (simp add: mkDate_def daysInMonth_def)
  have "moveToFirstWorkday (calendar everyDayRecurring) (mkDate 2004 1 1 8 0) (mkDate 2004 1 1 16 0)
          False (mkDate 2024 5 20 9 0) \<noteq> Some y" for y
    using moveToFirstWorkday_never_returns [of "calendar everyDayRecurring" "mkDate 2004 1 1 8 0"
        "mkDate 2004 1 1 16 0" False "mkDate 2024 5 20 9 0" y] s everyDayRecurring_holiday
    by blast
  then have n: "moveToFirstWorkday (calendar everyDayRecurring) (mkDate 2004 1 1 8 0)
      (mkDate 2004 1 1 16 0) False (mkDate 2024 5 20 9 0) = None"
    by (simp add: not_Some_eq [symmetric] del: not_Some_eq not_None_eq)
  have w: "convertToMinutes (getTime (mkDate 0 0 0 8 0)) = 480"
    by code_simp
  have p: "truncate_to_long (float_mult 1 (long_to_float 480)) = 480"
    by code_simp
  have l: "\<not> (480 < LONG_MIN \<or> LONG_MAX < 480)" "480 \<noteq> LONG_MIN"
    by (simp_all add: LONG_MIN_def LONG_MAX_def)
  have "getWorkdayIncrement everyDayRecurring (mkDate 2024 5 20 9 0) 1 = None"
    using v n w p l
    by (simp add: getWorkdayIncrement_def everyDayRecurring_fields Let_def bnd_def)
  with v everyDayRecurring_fields show ?thesis by simp
qed

end
